theory Spec2Isabelle
  imports Main
begin

section \<open>Text helpers of the Python runtime used by \<^verbatim>\<open>main.py\<close>\<close>

text \<open>
  Strings are lists of characters. The helpers below follow Python's behaviour on ASCII
  text: \<^verbatim>\<open>str.strip()\<close>, \<^verbatim>\<open>str.lower()\<close>, \<^verbatim>\<open>int(str)\<close>,
  \<^verbatim>\<open>str.rsplit('.', 1)\<close>, \<^verbatim>\<open>str.endswith\<close> and \<^verbatim>\<open>os.path.splitext\<close>.
\<close>

definition is_space :: "char \<Rightarrow> bool" where
  "is_space c = (let n = (of_char c :: nat) in (9 \<le> n \<and> n \<le> 13) \<or> (28 \<le> n \<and> n \<le> 32))"

definition py_strip :: "string \<Rightarrow> string" where
  "py_strip s = rev (dropWhile is_space (rev (dropWhile is_space s)))"

definition is_digit :: "char \<Rightarrow> bool" where
  "is_digit c = (let n = (of_char c :: nat) in 48 \<le> n \<and> n \<le> 57)"

definition digit_val :: "char \<Rightarrow> nat" where
  "digit_val c = of_char c - 48"

text \<open>
  The digits of a decimal literal accepted by \<^verbatim>\<open>int\<close>: at least one digit, and
  single underscores only between two digits.
\<close>

fun after_digit :: "nat \<Rightarrow> string \<Rightarrow> nat option" where
  "after_digit acc [] = Some acc"
| "after_digit acc [c] = (if is_digit c then Some (10 * acc + digit_val c) else None)"
| "after_digit acc (c # d # cs) =
     (if is_digit c then after_digit (10 * acc + digit_val c) (d # cs)
      else if c = CHR ''_'' \<and> is_digit d then after_digit (10 * acc + digit_val d) cs
      else None)"

fun parse_digits :: "string \<Rightarrow> nat option" where
  "parse_digits [] = None"
| "parse_digits (c # cs) = (if is_digit c then after_digit (digit_val c) cs else None)"

text \<open>
  \<^verbatim>\<open>int(s)\<close> in base ten; \<open>None\<close> stands for \<^verbatim>\<open>ValueError\<close>. Around the literal
  \<^verbatim>\<open>int\<close> skips the whitespace of C (tab to carriage return, and the space), which is less
  than \<^verbatim>\<open>str.strip()\<close> removes: the separators 28 to 31 are not skipped. One sign is
  allowed. A literal with more digits than the interpreter's default limit of 4300
  (\<^verbatim>\<open>sys.get_int_max_str_digits()\<close>; underscores are not counted) is refused.
\<close>

definition is_c_space :: "char \<Rightarrow> bool" where
  "is_c_space c = (let n = (of_char c :: nat) in (9 \<le> n \<and> n \<le> 13) \<or> n = 32)"

definition int_strip :: "string \<Rightarrow> string" where
  "int_strip s = rev (dropWhile is_c_space (rev (dropWhile is_c_space s)))"

definition int_max_str_digits :: nat where
  "int_max_str_digits = 4300"

definition limited_digits :: "string \<Rightarrow> nat option" where
  "limited_digits ds =
     (if int_max_str_digits < length (filter is_digit ds) then None else parse_digits ds)"

definition py_int :: "string \<Rightarrow> int option" where
  "py_int s =
     (case int_strip s of
        [] \<Rightarrow> None
      | c # cs \<Rightarrow>
          if c = CHR ''-'' then map_option (\<lambda>n. - int n) (limited_digits cs)
          else if c = CHR ''+'' then map_option int (limited_digits cs)
          else map_option int (limited_digits (c # cs)))"

text \<open>Decimal rendering of an integer, as a client writes it into the form field.\<close>

fun str_nat :: "nat \<Rightarrow> string" where
  "str_nat n = (if n < 10 then [char_of (48 + n)] else str_nat (n div 10) @ [char_of (48 + n mod 10)])"

declare str_nat.simps [simp del]

definition str_int :: "int \<Rightarrow> string" where
  "str_int i = (if i < 0 then CHR ''-'' # str_nat (nat (- i)) else str_nat (nat i))"

section \<open>The \<^verbatim>\<open>top_k\<close> form field of \<^verbatim>\<open>search\<close>\<close>

text \<open>
  Lines 186 to 191: \<^verbatim>\<open>request.form.get('top_k', '5')\<close>, then \<^verbatim>\<open>int\<close>, then
  \<^verbatim>\<open>max(1, min(20, top_k))\<close>; a \<^verbatim>\<open>ValueError\<close> gives 5. The field is
  \<open>None\<close> when the form has no \<^verbatim>\<open>top_k\<close>.
\<close>

definition effective_top_k :: "string option \<Rightarrow> int" where
  "effective_top_k field =
     (let top_k_str = (case field of None \<Rightarrow> ''5'' | Some s \<Rightarrow> s)
      in case py_int top_k_str of
           Some top_k \<Rightarrow> max 1 (min 20 top_k)
         | None \<Rightarrow> 5)"

text \<open>The clamp of the specification, written from its words.\<close>

definition spec_clamp :: "int \<Rightarrow> int" where
  "spec_clamp n = (if n < 1 then 1 else if 20 < n then 20 else n)"


section \<open>File names\<close>

definition py_lower :: "string \<Rightarrow> string" where
  "py_lower s =
     map (\<lambda>c. let n = (of_char c :: nat) in if 65 \<le> n \<and> n \<le> 90 then char_of (n + 32) else c) s"

text \<open>\<^verbatim>\<open>s.rsplit('.', 1)[1]\<close>, for a string that contains a dot.\<close>

definition after_last_dot :: "string \<Rightarrow> string" where
  "after_last_dot s = rev (takeWhile (\<lambda>c. c \<noteq> CHR ''.'') (rev s))"

definition endswith :: "string \<Rightarrow> string \<Rightarrow> bool" where
  "endswith s suf = (length suf \<le> length s \<and> drop (length s - length suf) s = suf)"

definition ALLOWED_EXTENSIONS :: "string set" where
  "ALLOWED_EXTENSIONS = {''pdf''}"

definition allowed_file :: "string \<Rightarrow> bool" where
  "allowed_file filename =
     (CHR ''.'' \<in> set filename \<and> py_lower (after_last_dot filename) \<in> ALLOWED_EXTENSIONS)"

text \<open>
  \<^verbatim>\<open>os.path.splitext\<close>: the extension starts at the last dot of the last path
  component, unless only dots precede it there.
\<close>

definition rfind :: "char \<Rightarrow> string \<Rightarrow> nat option" where
  "rfind c s = (if c \<in> set s then Some (length s - 1 - length (takeWhile (\<lambda>x. x \<noteq> c) (rev s))) else None)"

definition splitext :: "string \<Rightarrow> string \<times> string" where
  "splitext p =
     (case rfind (CHR ''.'') p of
        None \<Rightarrow> (p, [])
      | Some dotIndex \<Rightarrow>
          let filenameIndex = (case rfind (CHR ''/'') p of None \<Rightarrow> 0 | Some sepIndex \<Rightarrow> sepIndex + 1)
          in if filenameIndex \<le> dotIndex \<and>
                list_ex (\<lambda>c. c \<noteq> CHR ''.'') (take (dotIndex - filenameIndex) (drop filenameIndex p))
             then (take dotIndex p, drop dotIndex p)
             else (p, []))"

text \<open>
  \<^verbatim>\<open>werkzeug.utils.secure_filename\<close> is library code. The handlers take it from the
  environment (see \<open>env\<close> below); the function here follows the library on ASCII names
  under POSIX and serves the concrete runs: path separators become spaces, whitespace
  runs become one underscore, every character outside \<^verbatim>\<open>[A-Za-z0-9_.-]\<close> is
  dropped, and dots and underscores are stripped from both ends.
\<close>

fun split_ws :: "string \<Rightarrow> string \<Rightarrow> string list" where
  "split_ws cur [] = (if cur = [] then [] else [cur])"
| "split_ws cur (c # cs) =
     (if is_space c then (if cur = [] then split_ws [] cs else cur # split_ws [] cs)
      else split_ws (cur @ [c]) cs)"

fun py_join :: "string \<Rightarrow> string list \<Rightarrow> string" where
  "py_join sep [] = []"
| "py_join sep [x] = x"
| "py_join sep (x # y # ys) = x @ sep @ py_join sep (y # ys)"

definition filename_char :: "char \<Rightarrow> bool" where
  "filename_char c =
     (let n = (of_char c :: nat)
      in (65 \<le> n \<and> n \<le> 90) \<or> (97 \<le> n \<and> n \<le> 122) \<or> (48 \<le> n \<and> n \<le> 57)
         \<or> c = CHR ''_'' \<or> c = CHR ''.'' \<or> c = CHR ''-'')"

definition strip_dots_underscores :: "string \<Rightarrow> string" where
  "strip_dots_underscores s =
     (let junk = (\<lambda>c. c = CHR ''.'' \<or> c = CHR ''_'')
      in rev (dropWhile junk (rev (dropWhile junk s))))"

definition werkzeug_secure_filename :: "string \<Rightarrow> string" where
  "werkzeug_secure_filename filename =
     (let ascii = filter (\<lambda>c. (of_char c :: nat) < 128) filename;
          spaced = map (\<lambda>c. if c = CHR ''/'' then CHR '' '' else c) ascii
      in strip_dots_underscores (filter filename_char (py_join ''_'' (split_ws [] spaced))))"

section \<open>Data model\<close>

text \<open>
  An exception value carries \<^verbatim>\<open>str(e)\<close>. All exceptions of the collaborators are
  instances of \<^verbatim>\<open>Exception\<close>, the class every handler of the source catches.
\<close>

datatype exn = Exception string

fun str_exn :: "exn \<Rightarrow> string" where
  "str_exn (Exception m) = m"

record document =
  content :: string
  doc_filename :: string
  doc_path :: string
  uploaded_at :: string
  doc_source :: string

text \<open>
  The two collaborator objects. The source probes them with \<^verbatim>\<open>hasattr\<close>, so each
  carries the capabilities probed. Neither placeholder class of the source defines
  \<^verbatim>\<open>__bool__\<close> or \<^verbatim>\<open>__len__\<close>: a handle is truthy exactly when it is not
  \<^verbatim>\<open>None\<close>.
\<close>

record store =
  store_path :: string
  has_add_documents :: bool

record rag =
  rag_type :: string
  has_search_and_summarize :: bool
  has_vector_store_attr :: bool
  has_store_attr :: bool
  vector_store_attr :: "store option"
  store_attr :: "store option"

text \<open>Every invocation of a collaborator is recorded, oldest first.\<close>

datatype call =
    Call_RAGSearch
  | Call_load_all_documents "string list"
  | Call_FaissVectorStore string
  | Call_load
  | Call_build_from_documents "document list"
  | Call_add_documents "document list"
  | Call_search_and_summarize string int

text \<open>
  The process state: the two globals of lines 49 and 50, the names of the files in
  \<^verbatim>\<open>UPLOAD_FOLDER\<close> as \<^verbatim>\<open>os.listdir\<close> returns them, and the collaborator calls
  made so far.
\<close>

record world =
  search_system :: "rag option"
  vector_store :: "store option"
  folder :: "string list"
  calls :: "call list"

text \<open>
  What the outside does during one request: the results of the imported collaborators,
  of the sanitizer, and the operating-system errors. \<open>Inl\<close> and \<open>Some\<close> of an
  exception mean that the call raises it.
\<close>

record env =
  new_RAGSearch :: "exn + rag"
  load_all_documents :: "string list \<Rightarrow> exn + document list"
  new_FaissVectorStore :: "string \<Rightarrow> exn + store"
  store_load :: "exn option"
  build_from_documents :: "document list \<Rightarrow> exn option"
  add_documents :: "document list \<Rightarrow> exn option"
  search_and_summarize :: "string \<Rightarrow> int \<Rightarrow> exn + string"
  new_Document :: "document \<Rightarrow> exn + document"
  secure_filename :: "string \<Rightarrow> string"
  os_listdir_error :: "exn option"
  os_remove_error :: "string \<Rightarrow> exn option"
  app_debug :: bool

definition UPLOAD_FOLDER :: string where
  "UPLOAD_FOLDER = ''data/sample_data''"

definition called :: "call \<Rightarrow> world \<Rightarrow> world" where
  "called c w = w\<lparr>calls := calls w @ [c]\<rparr>"

subsection \<open>The upload folder\<close>

text \<open>
  Paths are \<^verbatim>\<open>os.path.join(UPLOAD_FOLDER, name)\<close> for a name without separators. With
  the empty name the path is the folder itself, which exists (line 46) and which
  \<^verbatim>\<open>os.remove\<close> refuses to unlink; the text of that error is the one of Linux. Saving
  under a name that exists overwrites the file.
\<close>

definition os_path_join :: "string \<Rightarrow> string \<Rightarrow> string" where
  "os_path_join a b = (if b \<noteq> [] \<and> hd b = CHR ''/'' then b else a @ ''/'' @ b)"

definition os_path_exists :: "world \<Rightarrow> string \<Rightarrow> bool" where
  "os_path_exists w name = (name = [] \<or> name \<in> set (folder w))"

definition file_save :: "string \<Rightarrow> world \<Rightarrow> world" where
  "file_save name w = (if name \<in> set (folder w) then w else w\<lparr>folder := folder w @ [name]\<rparr>)"

definition quoted :: "string \<Rightarrow> string" where
  "quoted s = CHR 0x27 # s @ [CHR 0x27]"

definition os_remove :: "env \<Rightarrow> string \<Rightarrow> world \<Rightarrow> exn + world" where
  "os_remove e name w =
     (if name = [] then Inl (Exception (''[Errno 21] Is a directory: '' @ quoted (os_path_join UPLOAD_FOLDER name)))
      else case os_remove_error e name of
             Some x \<Rightarrow> Inl x
           | None \<Rightarrow> Inr (w\<lparr>folder := removeAll name (folder w)\<rparr>))"

definition document_count :: "world \<Rightarrow> nat" where
  "document_count w = length (filter (\<lambda>f. endswith f ''.pdf'') (folder w))"


section \<open>Initialisation of the search system\<close>

text \<open>
  Lines 98 to 101: the new store is attached to the search object under the first of the
  attributes \<^verbatim>\<open>vector_store\<close> and \<^verbatim>\<open>store\<close> that the object has.
\<close>

definition attach_store :: "rag \<Rightarrow> store \<Rightarrow> rag" where
  "attach_store r s =
     (if has_vector_store_attr r then r\<lparr>vector_store_attr := Some s\<rparr>
      else if has_store_attr r then r\<lparr>store_attr := Some s\<rparr>
      else r)"

text \<open>
  \<^verbatim>\<open>initialize_search_system\<close>, lines 70 to 110. Each global is assigned where the
  source assigns it; an exception leaves the function through the handler of line 106,
  which returns \<^verbatim>\<open>False\<close> and undoes nothing.
\<close>

definition initialize_search_system :: "env \<Rightarrow> world \<Rightarrow> bool \<times> world" where
  "initialize_search_system e w =
     (let w0 = called Call_RAGSearch w
      in case new_RAGSearch e of
           Inl x \<Rightarrow> (False, w0)
         | Inr r \<Rightarrow>
             let w1 = w0\<lparr>search_system := Some r\<rparr>;
                 w2 = called (Call_load_all_documents (folder w1)) w1
             in case load_all_documents e (folder w1) of
                  Inl x \<Rightarrow> (False, w2)
                | Inr docs \<Rightarrow>
                    let w3 = called (Call_FaissVectorStore ''faiss_store'') w2
                    in case new_FaissVectorStore e ''faiss_store'' of
                         Inl x \<Rightarrow> (False, w3)
                       | Inr s \<Rightarrow>
                           let w4 = called Call_load (w3\<lparr>vector_store := Some s\<rparr>);
                               done = (\<lambda>v. (True, v\<lparr>search_system := Some (attach_store r s)\<rparr>))
                           in case store_load e of
                                None \<Rightarrow> done w4
                              | Some x \<Rightarrow>
                                  if docs \<noteq> [] then
                                    let w5 = called (Call_build_from_documents docs) w4
                                    in case build_from_documents e docs of
                                         Some y \<Rightarrow> (False, w5)
                                       | None \<Rightarrow> done w5
                                  else done w4)"

section \<open>Uploads\<close>

text \<open>
  One part of the multipart field \<^verbatim>\<open>files\<close>: its name, the pages that PyPDF2 finds
  in its bytes (\<open>None\<close> when opening or parsing raises), the two readings of the clock
  taken while it is processed, and the error of \<^verbatim>\<open>file.save\<close>, if any.
\<close>

datatype page = Page_text string | Page_error

record upload =
  filename :: string
  pdf :: "page list option"
  now :: string
  iso_now :: string
  save_error :: "exn option"

text \<open>
  \<^verbatim>\<open>extract_text_from_pdf\<close>, lines 56 to 68: the text of the pages read before an
  exception is kept.
\<close>

fun extract_pages :: "string \<Rightarrow> page list \<Rightarrow> string" where
  "extract_pages text [] = text"
| "extract_pages text (Page_text page_text # ps) =
     extract_pages (if page_text \<noteq> [] then text @ page_text @ [CHR 0x0A] else text) ps"
| "extract_pages text (Page_error # ps) = text"

definition extract_text_from_pdf :: "page list option \<Rightarrow> string" where
  "extract_text_from_pdf p = (case p of None \<Rightarrow> [] | Some ps \<Rightarrow> extract_pages [] ps)"

text \<open>\<^verbatim>\<open>process_and_index_document\<close>, lines 112 to 162.\<close>

definition process_and_index_document ::
  "env \<Rightarrow> upload \<Rightarrow> string \<Rightarrow> string \<Rightarrow> world \<Rightarrow> (bool \<times> string) \<times> world" where
  "process_and_index_document e f filepath fname w =
     (let text = extract_text_from_pdf (pdf f)
      in if text = [] then ((False, ''No text could be extracted from PDF''), w)
         else
           case new_Document e \<lparr>content = text, doc_filename = fname, doc_path = filepath,
                                 uploaded_at = iso_now f, doc_source = ''upload''\<rparr> of
             Inl x \<Rightarrow> ((False, str_exn x), w)
           | Inr doc \<Rightarrow>
               (case vector_store w of
                  Some s \<Rightarrow>
                    if has_add_documents s then
                      let w1 = called (Call_add_documents [doc]) w
                      in case add_documents e [doc] of
                           Some x \<Rightarrow> ((False, str_exn x), w1)
                         | None \<Rightarrow>
                             ((True, ''Document processed and added to vector store successfully''), w1)
                    else
                      let w1 = called (Call_load_all_documents (folder w)) w
                      in (case load_all_documents e (folder w) of
                            Inl x \<Rightarrow> ((False, str_exn x), w1)
                          | Inr docs \<Rightarrow>
                              let w2 = called (Call_build_from_documents docs) w1
                              in case build_from_documents e docs of
                                   Some x \<Rightarrow> ((False, str_exn x), w2)
                                 | None \<Rightarrow>
                                     ((True, ''Document processed and index rebuilt successfully''), w2))
                | None \<Rightarrow>
                    let w1 = called (Call_load_all_documents (folder w)) w
                    in (case load_all_documents e (folder w) of
                          Inl x \<Rightarrow> ((False, str_exn x), w1)
                        | Inr docs \<Rightarrow>
                            ((False, quoted ''NoneType'' @ '' object has no attribute ''
                                     @ quoted ''build_from_documents''), w1))))"

datatype uploaded = Uploaded (original: string) (saved_as: string) (message: string)

datatype failed = Failed string string

datatype body =
    Results_page string string
  | Json_error string
  | Json_upload "uploaded list" "failed list" string
  | Json_success string
  | Json_status string nat bool string "string option"
  | Json_status_error string
  | Json_health bool nat string bool

text \<open>
  A response is the HTTP status with the body. The constructors of \<open>body\<close> stand for the
  shapes of the rendered page and of the JSON objects; fields that are constant in the
  source (\<^verbatim>\<open>'success': True\<close>, \<^verbatim>\<open>'status': 'success'\<close>, \<^verbatim>\<open>'status': 'healthy'\<close>)
  are carried by the constructor.
\<close>

type_synonym response = "nat \<times> body"

text \<open>Lines 241 to 246: the name under which an accepted file is saved.\<close>

definition unique_filename :: "env \<Rightarrow> upload \<Rightarrow> string" where
  "unique_filename e f =
     (case splitext (secure_filename e (filename f)) of
        (name, ext) \<Rightarrow> name @ ''_'' @ now f @ ext)"

text \<open>
  The loop of lines 238 to 274. An exception of \<^verbatim>\<open>file.save\<close> or \<^verbatim>\<open>os.remove\<close>
  ends it (\<open>Inl\<close>); what was written before stays written.
\<close>

fun upload_loop ::
  "env \<Rightarrow> upload list \<Rightarrow> world \<Rightarrow> uploaded list \<Rightarrow> failed list
   \<Rightarrow> world \<times> (exn + uploaded list \<times> failed list)" where
  "upload_loop e [] w uploaded_files failed_files = (w, Inr (uploaded_files, failed_files))"
| "upload_loop e (f # fs) w uploaded_files failed_files =
     (if filename f \<noteq> [] \<and> allowed_file (filename f) then
        let unique = unique_filename e f;
            filepath = os_path_join UPLOAD_FOLDER unique
        in case save_error f of
             Some x \<Rightarrow> (w, Inl x)
           | None \<Rightarrow>
               (case process_and_index_document e f filepath unique (file_save unique w) of
                  ((success, msg), w1) \<Rightarrow>
                    if success then
                      upload_loop e fs w1 (uploaded_files @ [Uploaded (filename f) unique msg]) failed_files
                    else if os_path_exists w1 unique then
                      (case os_remove e unique w1 of
                         Inl x \<Rightarrow> (w1, Inl x)
                       | Inr w2 \<Rightarrow> upload_loop e fs w2 uploaded_files (failed_files @ [Failed (filename f) msg]))
                    else upload_loop e fs w1 uploaded_files (failed_files @ [Failed (filename f) msg]))
      else
        upload_loop e fs w uploaded_files
          (failed_files @ [Failed (filename f) ''Invalid file type. Only PDF files are allowed.'']))"

text \<open>
  \<^verbatim>\<open>upload_files\<close>, lines 223 to 294. The argument is \<open>None\<close> when the request has no
  part named \<^verbatim>\<open>files\<close>.
\<close>

definition upload_files :: "env \<Rightarrow> world \<Rightarrow> upload list option \<Rightarrow> response \<times> world" where
  "upload_files e w request_files =
     (case request_files of
        None \<Rightarrow> ((400, Json_error ''No files provided''), w)
      | Some files \<Rightarrow>
          if files = [] \<or> filename (hd files) = [] then ((400, Json_error ''No files selected''), w)
          else
            case upload_loop e files w [] [] of
              (w1, Inl x) \<Rightarrow> ((500, Json_error (str_exn x)), w1)
            | (w1, Inr (uploaded_files, failed_files)) \<Rightarrow>
                let w2 = (if uploaded_files \<noteq> [] then snd (initialize_search_system e w1) else w1)
                in ((200, Json_upload uploaded_files failed_files
                           (''Successfully uploaded '' @ str_nat (length uploaded_files)
                            @ '' files. Failed: '' @ str_nat (length failed_files))), w2))"


section \<open>The other handlers\<close>

text \<open>
  \<^verbatim>\<open>search\<close>, lines 174 to 221. The two arguments are the form fields \<^verbatim>\<open>query\<close>
  and \<^verbatim>\<open>top_k\<close>, \<open>None\<close> when the form lacks them. \<^verbatim>\<open>hasattr\<close> of \<^verbatim>\<open>None\<close> is
  false, which gives the fallback summary.
\<close>

definition search :: "env \<Rightarrow> world \<Rightarrow> string option \<Rightarrow> string option \<Rightarrow> response \<times> world" where
  "search e w query_field top_k_field =
     (let query = py_strip (case query_field of None \<Rightarrow> [] | Some q \<Rightarrow> q)
      in if query = [] then ((200, Results_page query ''Please enter a valid query.''), w)
         else
           let top_k = effective_top_k top_k_field;
               (success, w1) = (if search_system w = None then initialize_search_system e w else (True, w))
           in if \<not> success then
                ((200, Results_page query
                         ''Search system is not initialized properly. Please check the logs.''), w1)
              else
                case search_system w1 of
                  Some r \<Rightarrow>
                    if has_search_and_summarize r then
                      let w2 = called (Call_search_and_summarize query top_k) w1
                      in case search_and_summarize e query top_k of
                           Inl x \<Rightarrow> ((200, Results_page query (''An error occurred: '' @ str_exn x)), w2)
                         | Inr summary \<Rightarrow> ((200, Results_page query summary), w2)
                    else
                      ((200, Results_page query
                               (''Search functionality not fully implemented. Your query was: ''
                                @ quoted query)), w1)
                | None \<Rightarrow>
                    ((200, Results_page query
                             (''Search functionality not fully implemented. Your query was: ''
                              @ quoted query)), w1))"

text \<open>\<^verbatim>\<open>delete_document\<close>, lines 321 to 340.\<close>

definition delete_document :: "env \<Rightarrow> world \<Rightarrow> string \<Rightarrow> response \<times> world" where
  "delete_document e w fname =
     (let safe_filename = secure_filename e fname
      in if os_path_exists w safe_filename then
           case os_remove e safe_filename w of
             Inl x \<Rightarrow> ((500, Json_error (str_exn x)), w)
           | Inr w1 \<Rightarrow>
               ((200, Json_success ''Document deleted successfully''),
                snd (initialize_search_system e w1))
         else ((404, Json_error ''Document not found''), w))"

text \<open>\<^verbatim>\<open>reindex_documents\<close>, lines 358 to 369.\<close>

definition reindex_documents :: "env \<Rightarrow> world \<Rightarrow> response \<times> world" where
  "reindex_documents e w =
     (case initialize_search_system e w of
        (success, w1) \<Rightarrow>
          if success then ((200, Json_success ''Reindexing completed successfully''), w1)
          else ((500, Json_error ''Reindexing failed''), w1))"

text \<open>
  \<^verbatim>\<open>search_system_status\<close>, lines 371 to 391, and \<^verbatim>\<open>health\<close>, lines 393 to 404.
  Both list the upload folder; only the first does so inside \<^verbatim>\<open>try\<close>. The result of
  \<open>health\<close> is \<open>Inl\<close> when the exception leaves the handler.
\<close>

definition search_system_status :: "env \<Rightarrow> world \<Rightarrow> response" where
  "search_system_status e w =
     (case os_listdir_error e of
        Some x \<Rightarrow> (500, Json_status_error (str_exn x))
      | None \<Rightarrow>
          (200, Json_status
                  (if search_system w \<noteq> None then ''initialized'' else ''not_initialized'')
                  (document_count w)
                  (vector_store w \<noteq> None)
                  UPLOAD_FOLDER
                  (map_option rag_type (search_system w))))"

definition health :: "env \<Rightarrow> world \<Rightarrow> exn + response" where
  "health e w =
     (case os_listdir_error e of
        Some x \<Rightarrow> Inl x
      | None \<Rightarrow>
          Inr (200, Json_health (search_system w \<noteq> None) (document_count w) UPLOAD_FOLDER
                      (app_debug e)))"

section \<open>Sequences of requests\<close>

datatype request =
    Search "string option" "string option"
  | Upload "upload list option"
  | Delete string
  | Reindex

fun handle :: "env \<Rightarrow> world \<Rightarrow> request \<Rightarrow> response \<times> world" where
  "handle e w (Search q k) = search e w q k"
| "handle e w (Upload fs) = upload_files e w fs"
| "handle e w (Delete n) = delete_document e w n"
| "handle e w Reindex = reindex_documents e w"

text \<open>Each request meets its own environment.\<close>

fun run :: "world \<Rightarrow> (env \<times> request) list \<Rightarrow> world" where
  "run w [] = w"
| "run w ((e, r) # rs) = run (snd (handle e w r)) rs"

text \<open>The state after the module is imported: lines 49 and 50.\<close>

definition initial_world :: "string list \<Rightarrow> world" where
  "initial_world fs = \<lparr>search_system = None, vector_store = None, folder = fs, calls = []\<rparr>"

section \<open>Concrete collaborators\<close>

text \<open>
  The placeholder classes of lines 20 to 33 and an environment in which every
  collaborator works: the loader returns one document per listed file, no persisted
  index exists (\<^verbatim>\<open>load\<close> raises).
\<close>

definition placeholder_rag :: rag where
  "placeholder_rag =
     \<lparr>rag_type = ''RAGSearch'', has_search_and_summarize = True, has_vector_store_attr = False,
      has_store_attr = False, vector_store_attr = None, store_attr = None\<rparr>"

definition placeholder_store :: "string \<Rightarrow> store" where
  "placeholder_store path = \<lparr>store_path = path, has_add_documents = True\<rparr>"

definition folder_document :: "string \<Rightarrow> document" where
  "folder_document n =
     \<lparr>content = n, doc_filename = n, doc_path = os_path_join UPLOAD_FOLDER n,
      uploaded_at = [], doc_source = ''folder''\<rparr>"

definition env_ok :: env where
  "env_ok =
     \<lparr>new_RAGSearch = Inr placeholder_rag,
      load_all_documents = (\<lambda>fs. Inr (map folder_document fs)),
      new_FaissVectorStore = (\<lambda>p. Inr (placeholder_store p)),
      store_load = Some (Exception ''no index''),
      build_from_documents = (\<lambda>ds. None),
      add_documents = (\<lambda>ds. None),
      search_and_summarize = (\<lambda>q k. Inr (''summary of '' @ q)),
      new_Document = Inr,
      secure_filename = werkzeug_secure_filename,
      os_listdir_error = None,
      os_remove_error = (\<lambda>n. None),
      app_debug = True\<rparr>"

text \<open>The same, with a persisted index that \<^verbatim>\<open>load\<close> reads.\<close>

definition env_persisted :: env where
  "env_persisted = env_ok\<lparr>store_load := None\<rparr>"

text \<open>The loader raises, as it does when its module is missing (line 17).\<close>

definition env_loader_fails :: env where
  "env_loader_fails =
     env_ok\<lparr>load_all_documents := (\<lambda>fs. Inl (Exception ''name load_all_documents is not defined''))\<rparr>"

text \<open>The upload folder cannot be listed.\<close>

definition env_no_listing :: env where
  "env_no_listing = env_ok\<lparr>os_listdir_error := Some (Exception ''[Errno 2] No such file or directory'')\<rparr>"

definition pdf_upload :: "string \<Rightarrow> string \<Rightarrow> upload" where
  "pdf_upload n t =
     \<lparr>filename = n, pdf = Some [Page_text t], now = ''20240101_120000'',
      iso_now = ''2024-01-01T12:00:00'', save_error = None\<rparr>"


text \<open>An initialised state with two stored documents.\<close>

definition world_indexed :: world where
  "world_indexed =
     \<lparr>search_system = Some placeholder_rag, vector_store = Some (placeholder_store ''faiss_store''),
      folder = [''a.pdf'', ''b.pdf''], calls = []\<rparr>"

section \<open>Notions used in the proofs\<close>

text \<open>The calls made between two states of the same run.\<close>

definition new_calls :: "world \<Rightarrow> world \<Rightarrow> call list" where
  "new_calls w w' = drop (length (calls w)) (calls w')"

text \<open>The first part of the test of line 239 is the truth value of the file object.\<close>

definition accepted :: "upload \<Rightarrow> bool" where
  "accepted f = (filename f \<noteq> [] \<and> allowed_file (filename f))"

text \<open>
  One round of the loop of lines 238 to 274: the new state, and either the exception that
  ends the loop or the entries appended to the two lists.
\<close>

definition upload_one :: "env \<Rightarrow> upload \<Rightarrow> world \<Rightarrow> world \<times> (exn + uploaded list \<times> failed list)" where
  "upload_one e f w =
     (if accepted f then
        case save_error f of
          Some x \<Rightarrow> (w, Inl x)
        | None \<Rightarrow>
            (case process_and_index_document e f (os_path_join UPLOAD_FOLDER (unique_filename e f))
                    (unique_filename e f) (file_save (unique_filename e f) w) of
               ((success, msg), w1) \<Rightarrow>
                 if success then (w1, Inr ([Uploaded (filename f) (unique_filename e f) msg], []))
                 else if os_path_exists w1 (unique_filename e f) then
                   (case os_remove e (unique_filename e f) w1 of
                      Inl x \<Rightarrow> (w1, Inl x)
                    | Inr w2 \<Rightarrow> (w2, Inr ([], [Failed (filename f) msg])))
                 else (w1, Inr ([], [Failed (filename f) msg])))
      else (w, Inr ([], [Failed (filename f) ''Invalid file type. Only PDF files are allowed.''])))"

text \<open>The store handle is not set without the search handle.\<close>

definition ordered :: "world \<Rightarrow> bool" where
  "ordered w = (vector_store w \<noteq> None \<longrightarrow> search_system w \<noteq> None)"

section \<open>Parsing what was printed\<close>

lemma digit_char:
  fixes d :: nat
  assumes "d < 10"
  shows "is_digit (char_of (48 + d))" and "digit_val (char_of (48 + d)) = d"
  using assms by (auto simp: is_digit_def digit_val_def Let_def of_char_of)

lemma after_digit_snoc:
  "\<forall>x \<in> set xs. is_digit x \<Longrightarrow> is_digit c \<Longrightarrow>
   after_digit acc (xs @ [c]) = map_option (\<lambda>v. 10 * v + digit_val c) (after_digit acc xs)"
  by (induction acc xs rule: after_digit.induct) auto

lemma parse_digits_snoc:
  "xs \<noteq> [] \<Longrightarrow> \<forall>x \<in> set xs. is_digit x \<Longrightarrow> is_digit c \<Longrightarrow>
   parse_digits (xs @ [c]) = map_option (\<lambda>v. 10 * v + digit_val c) (parse_digits xs)"
  by (cases xs) (auto simp: after_digit_snoc)

lemma str_nat_digits: "str_nat n \<noteq> [] \<and> (\<forall>x \<in> set (str_nat n). is_digit x)"
proof (induction n rule: str_nat.induct)
  case (1 n)
  show ?case
  proof (cases "n < 10")
    case True
    then show ?thesis
      by (subst str_nat.simps, subst (2) str_nat.simps) (simp add: digit_char)
  next
    case False
    with 1 have "str_nat (n div 10) \<noteq> [] \<and> (\<forall>x \<in> set (str_nat (n div 10)). is_digit x)"
      by simp
    moreover have "is_digit (char_of (48 + n mod 10))"
      by (simp add: digit_char)
    ultimately show ?thesis
      using False by (subst str_nat.simps, subst (2) str_nat.simps) auto
  qed
qed

lemma parse_str_nat: "parse_digits (str_nat n) = Some n"
proof (induction n rule: str_nat.induct)
  case (1 n)
  show ?case
  proof (cases "n < 10")
    case True
    then show ?thesis
      by (subst str_nat.simps) (simp add: digit_char)
  next
    case False
    with 1 have ih: "parse_digits (str_nat (n div 10)) = Some (n div 10)"
      by simp
    have d: "is_digit (char_of (48 + n mod 10))" "digit_val (char_of (48 + n mod 10)) = n mod 10"
      by (simp_all add: digit_char)
    have "parse_digits (str_nat (n div 10) @ [char_of (48 + n mod 10)])
          = Some (10 * (n div 10) + n mod 10)"
      using parse_digits_snoc [OF _ _ d(1), of "str_nat (n div 10)"]
        str_nat_digits [of "n div 10"] ih d(2)
      by simp
    then show ?thesis
      using False by (subst str_nat.simps) simp
  qed
qed

lemma dropWhile_hd_id: "s \<noteq> [] \<Longrightarrow> \<not> P (hd s) \<Longrightarrow> dropWhile P s = s"
  by (cases s) auto

lemma int_strip_id:
  assumes "s \<noteq> []" "\<not> is_c_space (hd s)" "\<not> is_c_space (last s)"
  shows "int_strip s = s"
proof -
  have 1: "dropWhile is_c_space s = s"
    using assms by (simp add: dropWhile_hd_id)
  have 2: "dropWhile is_c_space (rev s) = rev s"
    using assms by (simp add: dropWhile_hd_id hd_rev)
  show ?thesis
    by (simp add: int_strip_def 1 2)
qed

lemma str_nat_ends: "is_digit (hd (str_nat n)) \<and> is_digit (last (str_nat n))"
  using str_nat_digits [of n] by (metis hd_in_set last_in_set)

lemma digit_not_special: "is_digit c \<Longrightarrow> \<not> is_c_space c \<and> c \<noteq> CHR ''-'' \<and> c \<noteq> CHR ''+''"
  by (auto simp: is_digit_def is_c_space_def Let_def)

lemma length_str_nat: "0 < k \<Longrightarrow> n < 10 ^ k \<Longrightarrow> length (str_nat n) \<le> k"
proof (induction n arbitrary: k rule: str_nat.induct)
  case (1 n)
  show ?case
  proof (cases "n < 10")
    case True
    with 1(2) show ?thesis
      by (subst str_nat.simps) simp
  next
    case False
    obtain j where k: "k = Suc j"
      using 1(2) by (cases k) auto
    have j: "0 < j"
    proof (rule ccontr)
      assume "\<not> 0 < j"
      with k 1(3) False show False by simp
    qed
    have "n div 10 < 10 ^ j"
      using 1(3) k by (simp add: less_mult_imp_div_less mult.commute)
    from 1(1) [OF False j this] False k show ?thesis
      by (subst str_nat.simps) simp
  qed
qed

lemma limited_str_nat:
  assumes "n < 10 ^ int_max_str_digits"
  shows "limited_digits (str_nat n) = Some n"
proof -
  have "0 < int_max_str_digits"
    by (simp add: int_max_str_digits_def)
  from length_str_nat [OF this assms] have "length (str_nat n) \<le> int_max_str_digits" .
  moreover have "filter is_digit (str_nat n) = str_nat n"
    using str_nat_digits [of n] by (simp add: filter_id_conv)
  ultimately show ?thesis
    by (simp add: limited_digits_def parse_str_nat)
qed

lemma nat_below_power:
  fixes j :: int
  assumes "0 \<le> j" "j < 10 ^ k"
  shows "nat j < 10 ^ k"
proof -
  have "int (nat j) < int (10 ^ k)"
    using assms by simp
  then show ?thesis
    by (simp only: of_nat_less_iff)
qed

lemma py_int_str_int:
  assumes "\<bar>i\<bar> < 10 ^ int_max_str_digits"
  shows "py_int (str_int i) = Some i"
proof (cases "i < 0")
  case True
  have "- i < 10 ^ int_max_str_digits" "0 \<le> - i"
    using assms True by simp_all
  then have "nat (- i) < 10 ^ int_max_str_digits"
    using nat_below_power by blast
  then have l: "limited_digits (str_nat (nat (- i))) = Some (nat (- i))"
    by (rule limited_str_nat)
  have ne: "str_nat (nat (- i)) \<noteq> []"
    using str_nat_digits by blast
  have "int_strip (CHR ''-'' # str_nat (nat (- i))) = CHR ''-'' # str_nat (nat (- i))"
    using ne str_nat_ends [of "nat (- i)"] digit_not_special
    by (intro int_strip_id) (auto simp: is_c_space_def)
  then show ?thesis
    using True l by (simp add: py_int_def str_int_def)
next
  case False
  have "i < 10 ^ int_max_str_digits" "0 \<le> i"
    using assms False by simp_all
  then have "nat i < 10 ^ int_max_str_digits"
    using nat_below_power by blast
  then have l: "limited_digits (str_nat (nat i)) = Some (nat i)"
    by (rule limited_str_nat)
  obtain c cs where s: "str_nat (nat i) = c # cs"
    using str_nat_digits [of "nat i"] by (cases "str_nat (nat i)") auto
  have dc: "is_digit c"
    using str_nat_ends [of "nat i"] s by simp
  have "int_strip (str_nat (nat i)) = str_nat (nat i)"
    using str_nat_digits [of "nat i"] str_nat_ends [of "nat i"] digit_not_special
    by (intro int_strip_id) auto
  then show ?thesis
    using False s dc digit_not_special [OF dc] l
    by (simp add: py_int_def str_int_def)
qed

lemma after_digit_digit:
  "is_digit d \<Longrightarrow> after_digit acc (d # rest) = after_digit (10 * acc + digit_val d) rest"
  by (cases rest) simp_all

lemma after_digit_lower:
  "\<forall>c \<in> set s. is_digit c \<Longrightarrow> \<exists>v. after_digit acc s = Some v \<and> acc \<le> v"
proof (induction s arbitrary: acc)
  case Nil
  show ?case by simp
next
  case (Cons d s)
  then have d: "is_digit d" and r: "\<forall>c \<in> set s. is_digit c"
    by simp_all
  from Cons.IH [OF r, of "10 * acc + digit_val d"] obtain v
    where "after_digit (10 * acc + digit_val d) s = Some v" "10 * acc + digit_val d \<le> v"
    by blast
  then show ?case
    using after_digit_digit [OF d, of acc s] by auto
qed

lemma nine_is_digit: "is_digit (CHR ''9'') \<and> digit_val (CHR ''9'') = 9 \<and> \<not> is_c_space (CHR ''9'')
    \<and> CHR ''9'' \<noteq> CHR ''-'' \<and> CHR ''9'' \<noteq> CHR ''+''"
  by (simp add: is_digit_def digit_val_def is_c_space_def)

lemma parse_nines: "\<exists>v. parse_digits (CHR ''9'' # CHR ''9'' # replicate n (CHR ''9'')) = Some v \<and> 99 \<le> v"
proof -
  have "\<forall>c \<in> set (replicate n (CHR ''9'')). is_digit c"
    using nine_is_digit by simp
  from after_digit_lower [OF this, of 99] show ?thesis
    using nine_is_digit by (simp add: after_digit_digit)
qed

lemma py_int_too_many_nines:
  assumes "int_max_str_digits < Suc n"
  shows "py_int (CHR ''9'' # replicate n (CHR ''9'')) = None"
proof -
  let ?s = "CHR ''9'' # replicate n (CHR ''9'')"
  have l: "last ?s = CHR ''9''"
    by (cases n) simp_all
  have "int_strip ?s = ?s"
    using nine_is_digit l by (intro int_strip_id) simp_all
  moreover have "filter is_digit ?s = ?s"
    using nine_is_digit by simp
  ultimately show ?thesis
    using assms nine_is_digit by (simp add: py_int_def limited_digits_def)
qed

lemma clamp_is_spec_clamp: "max 1 (min 20 n) = spec_clamp n"
  by (simp add: spec_clamp_def)

section \<open>Effects of the operations\<close>

lemma initialize_folder: "folder (snd (initialize_search_system e w)) = folder w"
  by (simp add: initialize_search_system_def called_def Let_def split: sum.split option.split)

lemma initialize_search_system_kept:
  "search_system w \<noteq> None \<Longrightarrow> search_system (snd (initialize_search_system e w)) \<noteq> None"
  by (simp add: initialize_search_system_def called_def Let_def split: sum.split option.split)

lemma initialize_store_needs_search:
  "(vector_store w \<noteq> None \<longrightarrow> search_system w \<noteq> None) \<Longrightarrow>
   vector_store (snd (initialize_search_system e w)) \<noteq> None \<Longrightarrow>
   search_system (snd (initialize_search_system e w)) \<noteq> None"
  by (simp add: initialize_search_system_def called_def Let_def split: sum.splits option.splits if_splits)

lemma initialize_success:
  "fst (initialize_search_system e w) \<Longrightarrow>
   search_system (snd (initialize_search_system e w)) \<noteq> None
   \<and> vector_store (snd (initialize_search_system e w)) \<noteq> None"
  by (simp add: initialize_search_system_def called_def Let_def split: sum.splits option.splits if_splits)

lemma process_keeps:
  "search_system (snd (process_and_index_document e f p n w)) = search_system w
   \<and> vector_store (snd (process_and_index_document e f p n w)) = vector_store w
   \<and> folder (snd (process_and_index_document e f p n w)) = folder w"
  by (simp add: process_and_index_document_def called_def Let_def split: sum.split option.split)

lemma file_save_keeps:
  "search_system (file_save n w) = search_system w \<and> vector_store (file_save n w) = vector_store w
   \<and> set (folder (file_save n w)) = insert n (set (folder w))"
  by (auto simp: file_save_def)

lemma os_remove_keeps:
  "os_remove e n w = Inr w' \<Longrightarrow>
   search_system w' = search_system w \<and> vector_store w' = vector_store w
   \<and> set (folder w') = set (folder w) - {n} \<and> calls w' = calls w"
  by (auto simp: os_remove_def split: if_splits option.splits)

lemma upload_loop_Cons:
  "upload_loop e (f # fs) w up fl =
     (case upload_one e f w of
        (w1, Inl x) \<Rightarrow> (w1, Inl x)
      | (w1, Inr (u, fa)) \<Rightarrow> upload_loop e fs w1 (up @ u) (fl @ fa))"
proof (cases "accepted f")
  case False
  then have "\<not> (filename f \<noteq> [] \<and> allowed_file (filename f))"
    by (simp add: accepted_def)
  then have "upload_loop e (f # fs) w up fl = upload_loop e fs w up
      (fl @ [Failed (filename f) ''Invalid file type. Only PDF files are allowed.''])"
    by (subst upload_loop.simps(2)) (simp only: if_False)
  with False show ?thesis
    by (simp add: upload_one_def del: upload_loop.simps)
next
  case acc: True
  then have ok: "filename f \<noteq> [] \<and> allowed_file (filename f)"
    by (simp add: accepted_def)
  let ?u = "unique_filename e f"
  have unf: "upload_loop e (f # fs) w up fl =
    (case save_error f of
             Some x \<Rightarrow> (w, Inl x)
           | None \<Rightarrow>
               (case process_and_index_document e f (os_path_join UPLOAD_FOLDER ?u) ?u (file_save ?u w) of
                  ((success, msg), w1) \<Rightarrow>
                    if success then
                      upload_loop e fs w1 (up @ [Uploaded (filename f) ?u msg]) fl
                    else if os_path_exists w1 ?u then
                      (case os_remove e ?u w1 of
                         Inl x \<Rightarrow> (w1, Inl x)
                       | Inr w2 \<Rightarrow> upload_loop e fs w2 up (fl @ [Failed (filename f) msg]))
                    else upload_loop e fs w1 up (fl @ [Failed (filename f) msg])))"
    using ok by (subst upload_loop.simps(2)) (simp add: Let_def del: upload_loop.simps)
  show ?thesis
  proof (cases "save_error f")
    case (Some x)
    with acc unf show ?thesis
      by (simp add: upload_one_def del: upload_loop.simps)
  next
    case None
    obtain success msg w1 where
      p: "process_and_index_document e f (os_path_join UPLOAD_FOLDER ?u) ?u (file_save ?u w)
          = ((success, msg), w1)"
      by (metis prod.exhaust)
    show ?thesis
    proof (cases "success \<or> \<not> os_path_exists w1 ?u")
      case True
      with acc None p unf show ?thesis
        by (auto simp add: upload_one_def simp del: upload_loop.simps)
    next
      case False
      then show ?thesis
        using acc None p unf
        by (cases "os_remove e ?u w1") (simp_all add: upload_one_def del: upload_loop.simps)
    qed
  qed
qed

lemma upload_one_handles:
  "search_system (fst (upload_one e f w)) = search_system w
   \<and> vector_store (fst (upload_one e f w)) = vector_store w"
proof -
  let ?u = "unique_filename e f"
  let ?p = "process_and_index_document e f (os_path_join UPLOAD_FOLDER ?u) ?u (file_save ?u w)"
  have k: "search_system (snd ?p) = search_system w \<and> vector_store (snd ?p) = vector_store w"
    using process_keeps [of e f "os_path_join UPLOAD_FOLDER ?u" ?u "file_save ?u w"]
      file_save_keeps [of ?u w] by simp
  show ?thesis
    using k by (auto simp: upload_one_def split: option.split sum.split prod.split dest: os_remove_keeps)
qed

lemma upload_one_rejected:
  "\<not> accepted f \<Longrightarrow>
   upload_one e f w = (w, Inr ([], [Failed (filename f) ''Invalid file type. Only PDF files are allowed.'']))"
  by (simp add: upload_one_def)

lemma upload_one_cases:
  obtains
    (rejected) "\<not> accepted f" "upload_one e f w
        = (w, Inr ([], [Failed (filename f) ''Invalid file type. Only PDF files are allowed.'']))"
  | (save_failed) x where "accepted f" "upload_one e f w = (w, Inl x)"
  | (indexed) msg w1 where "accepted f" "set (folder w1) = insert (unique_filename e f) (set (folder w))"
      "upload_one e f w = (w1, Inr ([Uploaded (filename f) (unique_filename e f) msg], []))"
  | (remove_failed) x w1 where "accepted f" "set (folder w1) = insert (unique_filename e f) (set (folder w))"
      "upload_one e f w = (w1, Inl x)"
  | (removed) msg w2 where "accepted f" "set (folder w2) = set (folder w) - {unique_filename e f}"
      "upload_one e f w = (w2, Inr ([], [Failed (filename f) msg]))"
proof (cases "accepted f")
  case False
  then show ?thesis
    using rejected by (simp add: upload_one_def)
next
  case acc: True
  let ?u = "unique_filename e f"
  show ?thesis
  proof (cases "save_error f")
    case (Some x)
    with acc show ?thesis
      using save_failed by (simp add: upload_one_def)
  next
    case None
    obtain success msg w1 where
      p: "process_and_index_document e f (os_path_join UPLOAD_FOLDER ?u) ?u (file_save ?u w)
          = ((success, msg), w1)"
      by (metis prod.exhaust)
    have k: "set (folder w1) = insert ?u (set (folder w))"
      using process_keeps [of e f "os_path_join UPLOAD_FOLDER ?u" ?u "file_save ?u w"]
        file_save_keeps [of ?u w] p by simp
    then have ex: "os_path_exists w1 ?u"
      by (simp add: os_path_exists_def)
    show ?thesis
    proof (cases success)
      case True
      with acc None p have "upload_one e f w = (w1, Inr ([Uploaded (filename f) ?u msg], []))"
        by (simp add: upload_one_def)
      with acc k show ?thesis
        using indexed by blast
    next
      case False
      show ?thesis
      proof (cases "os_remove e ?u w1")
        case (Inl x)
        with acc None p False ex have "upload_one e f w = (w1, Inl x)"
          by (simp add: upload_one_def)
        with acc k show ?thesis
          using remove_failed by blast
      next
        case (Inr w2)
        with acc None p False ex have "upload_one e f w = (w2, Inr ([], [Failed (filename f) msg]))"
          by (simp add: upload_one_def)
        moreover have "set (folder w2) = set (folder w) - {?u}"
          using os_remove_keeps [OF Inr] k by auto
        ultimately show ?thesis
          using acc removed by blast
      qed
    qed
  qed
qed

lemma upload_one_folder:
  assumes "n \<noteq> unique_filename e f"
  shows "n \<in> set (folder (fst (upload_one e f w))) \<longleftrightarrow> n \<in> set (folder w)"
  using assms by - (rule upload_one_cases [where f = f and e = e and w = w], auto)

lemma upload_one_accepted:
  assumes "accepted f" "upload_one e f w = (w1, Inr (u, fa))"
  shows "(\<exists>msg. u = [Uploaded (filename f) (unique_filename e f) msg] \<and> fa = []
            \<and> unique_filename e f \<in> set (folder w1))
         \<or> (\<exists>msg. u = [] \<and> fa = [Failed (filename f) msg] \<and> unique_filename e f \<notin> set (folder w1))"
  using assms by - (rule upload_one_cases [where f = f and e = e and w = w], auto)

lemma upload_loop_handles:
  "search_system (fst (upload_loop e fs w up fl)) = search_system w
   \<and> vector_store (fst (upload_loop e fs w up fl)) = vector_store w"
proof (induction fs arbitrary: w up fl)
  case Nil
  show ?case by simp
next
  case (Cons f fs)
  obtain w1 r where o: "upload_one e f w = (w1, r)"
    by (cases "upload_one e f w")
  have h: "search_system w1 = search_system w \<and> vector_store w1 = vector_store w"
    using upload_one_handles [of e f w] o by simp
  show ?case
  proof (cases r)
    case (Inl x)
    with o h show ?thesis by (simp add: upload_loop_Cons del: upload_loop.simps)
  next
    case (Inr p)
    obtain u fa where p: "p = (u, fa)" by (cases p)
    from Inr p o h Cons [of w1 "up @ u" "fl @ fa"] show ?thesis
      by (simp add: upload_loop_Cons del: upload_loop.simps)
  qed
qed

lemma upload_loop_folder:
  "n \<in> set (folder (fst (upload_loop e fs w up fl))) \<Longrightarrow>
   n \<in> set (folder w) \<or> (\<exists>f \<in> set fs. accepted f \<and> n = unique_filename e f)"
proof (induction fs arbitrary: w up fl)
  case Nil
  then show ?case by simp
next
  case (Cons f fs)
  obtain w1 r where o: "upload_one e f w = (w1, r)"
    by (cases "upload_one e f w")
  have same: "n \<noteq> unique_filename e f \<Longrightarrow> n \<in> set (folder w1) \<longleftrightarrow> n \<in> set (folder w)"
    using upload_one_folder [of n e f w] o by simp
  have rej: "\<not> accepted f \<Longrightarrow> w1 = w"
    using upload_one_rejected [of f e w] o by simp
  have in_w1: "n \<in> set (folder w1) \<Longrightarrow> n \<in> set (folder w) \<or> (accepted f \<and> n = unique_filename e f)"
    using same rej by blast
  show ?case
  proof (cases r)
    case (Inl x)
    with o Cons.prems in_w1 show ?thesis
      by (auto simp: upload_loop_Cons simp del: upload_loop.simps)
  next
    case (Inr p)
    obtain u fa where p: "p = (u, fa)" by (cases p)
    from Inr p o Cons.prems have "n \<in> set (folder (fst (upload_loop e fs w1 (up @ u) (fl @ fa))))"
      by (simp add: upload_loop_Cons del: upload_loop.simps)
    from Cons.IH [OF this] in_w1 show ?thesis
      by auto
  qed
qed

lemma initialize_ordered: "ordered w \<Longrightarrow> ordered (snd (initialize_search_system e w))"
  using initialize_store_needs_search [of w e] by (auto simp: ordered_def)

lemma called_ordered: "ordered (called c w) = ordered w"
  by (simp add: ordered_def called_def)

lemma same_handles_ordered:
  "search_system v = search_system w \<Longrightarrow> vector_store v = vector_store w \<Longrightarrow> ordered v = ordered w"
  by (simp add: ordered_def)

lemma search_world:
  "snd (search e w q k) \<in> {w, snd (initialize_search_system e w),
        called (Call_search_and_summarize (py_strip (case q of None \<Rightarrow> [] | Some s \<Rightarrow> s)) (effective_top_k k)) w,
        called (Call_search_and_summarize (py_strip (case q of None \<Rightarrow> [] | Some s \<Rightarrow> s)) (effective_top_k k))
          (snd (initialize_search_system e w))}"
  by (simp add: search_def Let_def case_prod_beta split: option.split sum.split)

lemma search_ordered:
  assumes "ordered w"
  shows "ordered (snd (search e w q k))"
  using search_world [of e w q k] assms initialize_ordered [OF assms, of e]
  by (elim insertE) (simp_all add: called_ordered)

lemma upload_world:
  "snd (upload_files e w fs) \<in> {w, fst (upload_loop e (the fs) w [] []),
      snd (initialize_search_system e (fst (upload_loop e (the fs) w [] [])))}"
  by (simp add: upload_files_def Let_def case_prod_beta split: option.split sum.split)

lemma upload_ordered:
  assumes "ordered w"
  shows "ordered (snd (upload_files e w fs))"
proof -
  let ?v = "fst (upload_loop e (the fs) w [] [])"
  have v: "ordered ?v"
    using assms same_handles_ordered [of ?v w] upload_loop_handles [of e "the fs" w "[]" "[]"] by simp
  from upload_world [of e w fs] show ?thesis
    using assms v initialize_ordered [OF v, of e]
    by (elim insertE) simp_all
qed

lemma delete_ordered:
  assumes "ordered w"
  shows "ordered (snd (delete_document e w n))"
proof (cases "os_path_exists w (secure_filename e n)")
  case False
  with assms show ?thesis
    by (simp add: delete_document_def)
next
  case ex: True
  show ?thesis
  proof (cases "os_remove e (secure_filename e n) w")
    case (Inl x)
    with ex assms show ?thesis
      by (simp add: delete_document_def)
  next
    case (Inr w1)
    have "ordered w1"
      using assms same_handles_ordered [of w1 w] os_remove_keeps [OF Inr] by simp
    from initialize_ordered [OF this, of e] ex Inr show ?thesis
      by (simp add: delete_document_def)
  qed
qed

lemma reindex_world: "snd (reindex_documents e w) = snd (initialize_search_system e w)"
  by (simp add: reindex_documents_def case_prod_beta)

lemma handle_ordered: "ordered w \<Longrightarrow> ordered (snd (handle e w r))"
  by (cases r) (simp_all add: search_ordered upload_ordered delete_ordered reindex_world initialize_ordered)

lemma run_ordered: "ordered w \<Longrightarrow> ordered (run w rs)"
proof (induction rs arbitrary: w)
  case Nil
  then show ?case by simp
next
  case (Cons a rs)
  obtain e r where a: "a = (e, r)" by (cases a)
  from Cons.IH [OF handle_ordered [OF Cons.prems, of e r]] a show ?case by simp
qed

lemma run_reindex_ok:
  "run (initial_world []) [(env_ok, Reindex)]
   = \<lparr>search_system = Some placeholder_rag, vector_store = Some (placeholder_store ''faiss_store''),
      folder = [],
      calls = [Call_RAGSearch, Call_load_all_documents [], Call_FaissVectorStore ''faiss_store'',
               Call_load]\<rparr>"
  by (simp add: initial_world_def reindex_documents_def initialize_search_system_def env_ok_def
      called_def attach_store_def placeholder_rag_def)

lemma initialize_new_calls:
  "new_calls w (snd (initialize_search_system e w)) =
     Call_RAGSearch #
     (case new_RAGSearch e of
        Inl x \<Rightarrow> []
      | Inr r \<Rightarrow>
          Call_load_all_documents (folder w) #
          (case load_all_documents e (folder w) of
             Inl x \<Rightarrow> []
           | Inr docs \<Rightarrow>
               Call_FaissVectorStore ''faiss_store'' #
               (case new_FaissVectorStore e ''faiss_store'' of
                  Inl x \<Rightarrow> []
                | Inr s \<Rightarrow>
                    Call_load #
                    (if store_load e \<noteq> None \<and> docs \<noteq> [] then [Call_build_from_documents docs] else []))))"
  by (cases "new_RAGSearch e"; cases "load_all_documents e (folder w)";
      cases "new_FaissVectorStore e ''faiss_store''"; cases "store_load e")
    (auto simp: new_calls_def initialize_search_system_def called_def Let_def split: option.split)

lemma initialize_builds_iff:
  "Call_build_from_documents ds \<in> set (new_calls w (snd (initialize_search_system e w)))
   \<longleftrightarrow> (\<exists>r s. new_RAGSearch e = Inr r \<and> load_all_documents e (folder w) = Inr ds
            \<and> new_FaissVectorStore e ''faiss_store'' = Inr s \<and> store_load e \<noteq> None \<and> ds \<noteq> [])"
  by (cases "new_RAGSearch e"; cases "load_all_documents e (folder w)";
      cases "new_FaissVectorStore e ''faiss_store''")
    (auto simp: initialize_new_calls)



lemma calls_grow_initialize:
  "calls (snd (initialize_search_system e w)) = calls w @ new_calls w (snd (initialize_search_system e w))"
  by (cases "new_RAGSearch e"; cases "load_all_documents e (folder w)";
      cases "new_FaissVectorStore e ''faiss_store''"; cases "store_load e")
    (auto simp: new_calls_def initialize_search_system_def called_def Let_def split: option.split)


lemma allowed_nonempty: "allowed_file n \<Longrightarrow> n \<noteq> []"
  by (auto simp: allowed_file_def)

lemma accepted_iff: "accepted f \<longleftrightarrow> allowed_file (filename f)"
  using allowed_nonempty by (auto simp: accepted_def)

lemma upload_loop_failed_list:
  "upload_loop e fs w up fl = (w', Inr (up', fl')) \<Longrightarrow>
   set fl \<subseteq> set fl'
   \<and> (\<forall>f \<in> set fs. \<not> accepted f \<longrightarrow>
         Failed (filename f) ''Invalid file type. Only PDF files are allowed.'' \<in> set fl')"
proof (induction fs arbitrary: w up fl)
  case Nil
  then show ?case by simp
next
  case (Cons f fs)
  obtain w1 r where o: "upload_one e f w = (w1, r)"
    by (cases "upload_one e f w")
  show ?case
  proof (cases r)
    case (Inl x)
    with o Cons.prems show ?thesis
      by (simp add: upload_loop_Cons del: upload_loop.simps)
  next
    case (Inr p)
    obtain u fa where p: "p = (u, fa)" by (cases p)
    from Inr p o Cons.prems have "upload_loop e fs w1 (up @ u) (fl @ fa) = (w', Inr (up', fl'))"
      by (simp add: upload_loop_Cons del: upload_loop.simps)
    from Cons.IH [OF this] have ih: "set (fl @ fa) \<subseteq> set fl'"
      "\<forall>f \<in> set fs. \<not> accepted f \<longrightarrow>
         Failed (filename f) ''Invalid file type. Only PDF files are allowed.'' \<in> set fl'"
      by blast+
    have "\<not> accepted f \<Longrightarrow> fa = [Failed (filename f) ''Invalid file type. Only PDF files are allowed.'']"
      using upload_one_rejected [of f e w] o Inr p by simp
    with ih show ?thesis
      by auto
  qed
qed

lemma upload_loop_all_rejected:
  "\<forall>f \<in> set fs. \<not> accepted f \<Longrightarrow>
   fst (upload_loop e fs w up fl) = w
   \<and> (\<exists>fl'. snd (upload_loop e fs w up fl) = Inr (up, fl'))"
proof (induction fs arbitrary: fl)
  case Nil
  then show ?case by simp
next
  case (Cons f fs)
  then have "\<not> accepted f" "\<forall>f \<in> set fs. \<not> accepted f"
    by simp_all
  with Cons.IH [of "fl @ [Failed (filename f) ''Invalid file type. Only PDF files are allowed.'']"]
    upload_one_rejected [of f e w]
  show ?case
    by (simp add: upload_loop_Cons del: upload_loop.simps)
qed

lemma upload_loop_atomic:
  assumes "upload_loop e fs w up fl = (w', Inr (up', fl'))"
    and "distinct (map (unique_filename e) (filter accepted fs))"
  shows "\<exists>ups. up' = up @ ups
     \<and> (\<forall>u \<in> set ups. \<exists>f \<in> set fs. accepted f \<and> original u = filename f
            \<and> saved_as u = unique_filename e f)
     \<and> (\<forall>f \<in> set fs. accepted f \<longrightarrow>
           (unique_filename e f \<in> set (folder w') \<longleftrightarrow> unique_filename e f \<in> saved_as ` set ups))
     \<and> (\<forall>n. n \<notin> unique_filename e ` {f \<in> set fs. accepted f} \<longrightarrow>
           (n \<in> set (folder w') \<longleftrightarrow> n \<in> set (folder w)))"
  using assms
proof (induction fs arbitrary: w up fl)
  case Nil
  then show ?case by simp
next
  case (Cons f fs)
  let ?U = "unique_filename e"
  note step = upload_loop_Cons [of e f fs w up fl]
  show ?case
  proof (rule upload_one_cases [where f = f and e = e and w = w])
    assume rej: "\<not> accepted f"
      and o: "upload_one e f w
        = (w, Inr ([], [Failed (filename f) ''Invalid file type. Only PDF files are allowed.'']))"
    let ?fl = "fl @ [Failed (filename f) ''Invalid file type. Only PDF files are allowed.'']"
    have l: "upload_loop e fs w up ?fl = (w', Inr (up', fl'))"
      using Cons.prems(1) step o by simp
    have d: "distinct (map ?U (filter accepted fs))"
      using Cons.prems(2) rej by simp
    have same: "{g \<in> set (f # fs). accepted g} = {g \<in> set fs. accepted g}"
      using rej by auto
    from Cons.IH [OF l d] obtain ups where
      1: "up' = up @ ups"
      and 2: "\<forall>u \<in> set ups. \<exists>g \<in> set fs. accepted g \<and> original u = filename g \<and> saved_as u = ?U g"
      and 3: "\<forall>g \<in> set fs. accepted g \<longrightarrow> (?U g \<in> set (folder w') \<longleftrightarrow> ?U g \<in> saved_as ` set ups)"
      and 4: "\<forall>n. n \<notin> ?U ` {g \<in> set fs. accepted g} \<longrightarrow> (n \<in> set (folder w') \<longleftrightarrow> n \<in> set (folder w))"
      by blast
    have b: "\<forall>u \<in> set ups. \<exists>g \<in> set (f # fs). accepted g \<and> original u = filename g
        \<and> saved_as u = ?U g"
      using 2 by auto
    have c: "\<forall>g \<in> set (f # fs). accepted g \<longrightarrow>
        (?U g \<in> set (folder w') \<longleftrightarrow> ?U g \<in> saved_as ` set ups)"
      using 3 rej by auto
    have dd: "\<forall>n. n \<notin> ?U ` {g \<in> set (f # fs). accepted g} \<longrightarrow>
        (n \<in> set (folder w') \<longleftrightarrow> n \<in> set (folder w))"
      using 4 unfolding same by blast
    from 1 b c dd show ?thesis
      by blast
  next
    fix x assume "upload_one e f w = (w, Inl x)"
    with Cons.prems(1) step show ?thesis by simp
  next
    fix x w1 assume "upload_one e f w = (w1, Inl x)"
    with Cons.prems(1) step show ?thesis by simp
  next
    fix msg w1
    assume acc: "accepted f"
      and fw: "set (folder w1) = insert (?U f) (set (folder w))"
      and o: "upload_one e f w = (w1, Inr ([Uploaded (filename f) (?U f) msg], []))"
    let ?x = "Uploaded (filename f) (?U f) msg"
    have l: "upload_loop e fs w1 (up @ [?x]) fl = (w', Inr (up', fl'))"
      using Cons.prems(1) step o by simp
    have d: "distinct (map ?U (filter accepted fs))"
      and fresh: "?U f \<notin> ?U ` {g \<in> set fs. accepted g}"
      using Cons.prems(2) acc by auto
    from Cons.IH [OF l d] obtain ups where
      1: "up' = (up @ [?x]) @ ups"
      and 2: "\<forall>u \<in> set ups. \<exists>g \<in> set fs. accepted g \<and> original u = filename g \<and> saved_as u = ?U g"
      and 3: "\<forall>g \<in> set fs. accepted g \<longrightarrow> (?U g \<in> set (folder w') \<longleftrightarrow> ?U g \<in> saved_as ` set ups)"
      and 4: "\<forall>n. n \<notin> ?U ` {g \<in> set fs. accepted g} \<longrightarrow> (n \<in> set (folder w') \<longleftrightarrow> n \<in> set (folder w1))"
      by blast
    have a: "up' = up @ (?x # ups)"
      using 1 by simp
    have b: "\<forall>u \<in> set (?x # ups). \<exists>g \<in> set (f # fs). accepted g \<and> original u = filename g
        \<and> saved_as u = ?U g"
      using 2 acc by auto
    have c: "\<forall>g \<in> set (f # fs). accepted g \<longrightarrow>
        (?U g \<in> set (folder w') \<longleftrightarrow> ?U g \<in> saved_as ` set (?x # ups))"
      using 3 4 fresh fw by auto
    have dd: "\<forall>n. n \<notin> ?U ` {g \<in> set (f # fs). accepted g} \<longrightarrow>
        (n \<in> set (folder w') \<longleftrightarrow> n \<in> set (folder w))"
      using 4 fw acc by auto
    from a b c dd show ?thesis
      by blast
  next
    fix msg w2
    assume acc: "accepted f"
      and fw: "set (folder w2) = set (folder w) - {?U f}"
      and o: "upload_one e f w = (w2, Inr ([], [Failed (filename f) msg]))"
    have l: "upload_loop e fs w2 up (fl @ [Failed (filename f) msg]) = (w', Inr (up', fl'))"
      using Cons.prems(1) step o by simp
    have d: "distinct (map ?U (filter accepted fs))"
      and fresh: "?U f \<notin> ?U ` {g \<in> set fs. accepted g}"
      using Cons.prems(2) acc by auto
    from Cons.IH [OF l d] obtain ups where
      1: "up' = up @ ups"
      and 2: "\<forall>u \<in> set ups. \<exists>g \<in> set fs. accepted g \<and> original u = filename g \<and> saved_as u = ?U g"
      and 3: "\<forall>g \<in> set fs. accepted g \<longrightarrow> (?U g \<in> set (folder w') \<longleftrightarrow> ?U g \<in> saved_as ` set ups)"
      and 4: "\<forall>n. n \<notin> ?U ` {g \<in> set fs. accepted g} \<longrightarrow> (n \<in> set (folder w') \<longleftrightarrow> n \<in> set (folder w2))"
      by blast
    have nf: "?U f \<notin> saved_as ` set ups"
      using 2 fresh by force
    have b: "\<forall>u \<in> set ups. \<exists>g \<in> set (f # fs). accepted g \<and> original u = filename g
        \<and> saved_as u = ?U g"
      using 2 by auto
    have c: "\<forall>g \<in> set (f # fs). accepted g \<longrightarrow>
        (?U g \<in> set (folder w') \<longleftrightarrow> ?U g \<in> saved_as ` set ups)"
      using 3 4 fresh fw nf by auto
    have dd: "\<forall>n. n \<notin> ?U ` {g \<in> set (f # fs). accepted g} \<longrightarrow>
        (n \<in> set (folder w') \<longleftrightarrow> n \<in> set (folder w))"
      using 4 fw acc by auto
    from 1 b c dd show ?thesis
      by blast
  qed
qed

lemma upload_files_report:
  assumes "upload_files e w (Some fs) = ((200, Json_upload up fl m), w')"
  shows "\<exists>w1. upload_loop e fs w [] [] = (w1, Inr (up, fl)) \<and> folder w' = folder w1"
proof -
  obtain w1 r where l: "upload_loop e fs w [] [] = (w1, r)"
    by (cases "upload_loop e fs w [] []")
  have g: "\<not> (fs = [] \<or> filename (hd fs) = [])"
    using assms by (auto simp: upload_files_def)
  show ?thesis
  proof (cases r)
    case (Inl x)
    with assms l g show ?thesis
      by (simp add: upload_files_def)
  next
    case (Inr p)
    obtain u fa where p: "p = (u, fa)" by (cases p)
    from assms l g Inr p have "u = up" "fa = fl"
      "w' = (if u \<noteq> [] then snd (initialize_search_system e w1) else w1)"
      by (auto simp add: upload_files_def Let_def)
    with l Inr p initialize_folder [of e w1] show ?thesis
      by auto
  qed
qed

lemma same_second_collision:
  "fst (upload_files env_ok world_indexed
          (Some [pdf_upload ''c.pdf'' ''hello'', pdf_upload ''c.pdf'' []]))
     = (200, Json_upload
               [Uploaded ''c.pdf'' ''c_20240101_120000.pdf''
                  ''Document processed and added to vector store successfully'']
               [Failed ''c.pdf'' ''No text could be extracted from PDF'']
               ''Successfully uploaded 1 files. Failed: 1'')
   \<and> folder (snd (upload_files env_ok world_indexed
          (Some [pdf_upload ''c.pdf'' ''hello'', pdf_upload ''c.pdf'' []])))
     = [''a.pdf'', ''b.pdf'']"
  by code_simp

lemma delete_missing_document:
  "secure_filename e n \<noteq> [] \<Longrightarrow> secure_filename e n \<notin> set (folder w) \<Longrightarrow>
   delete_document e w n = ((404, Json_error ''Document not found''), w)"
  by (simp add: delete_document_def os_path_exists_def)

lemma handler_status_codes: "fst (fst (handle e w r)) \<in> {200, 400, 404, 500}"
proof (cases r)
  case (Search q k)
  then show ?thesis
    by (simp add: search_def Let_def case_prod_beta split: option.split sum.split)
next
  case (Upload fs)
  then show ?thesis
    by (simp add: upload_files_def Let_def case_prod_beta split: option.split sum.split)
next
  case (Delete n)
  then show ?thesis
    by (simp add: delete_document_def Let_def split: sum.split)
next
  case Reindex
  then show ?thesis
    by (simp add: reindex_documents_def case_prod_beta)
qed

lemma status_status_codes: "fst (search_system_status e w) \<in> {200, 500}"
  by (simp add: search_system_status_def split: option.split)

section \<open>The claims\<close>

text \<open>
  C1, as amended. After every sequence of \<^verbatim>\<open>search\<close>, \<^verbatim>\<open>upload\<close>, \<^verbatim>\<open>delete\<close> and
  \<^verbatim>\<open>reindex\<close> requests the store handle is set only if the search handle is set.
\<close>

theorem store_handle_never_alone:
  "vector_store (run (initial_world fs) ops) \<noteq> None \<Longrightarrow>
   search_system (run (initial_world fs) ops) \<noteq> None"
  using run_ordered [of "initial_world fs" ops] by (simp add: ordered_def initial_world_def)

text \<open>After a \<^verbatim>\<open>reindex\<close> in which every collaborator works, both handles are set.\<close>

theorem store_handle_never_alone_witness:
  "vector_store (run (initial_world []) [(env_ok, Reindex)]) \<noteq> None
   \<and> search_system (run (initial_world []) [(env_ok, Reindex)]) \<noteq> None"
proof -
  have v: "vector_store (run (initial_world []) [(env_ok, Reindex)]) \<noteq> None"
    by (subst run_reindex_ok) simp
  from v store_handle_never_alone [OF v] show ?thesis
    by simp
qed

text \<open>
  The state with the search handle set and the store handle \<^verbatim>\<open>None\<close> is reached: a
  \<^verbatim>\<open>reindex\<close> whose document loader raises assigns \<^verbatim>\<open>search_system\<close> (line 77) and
  leaves through the handler of line 106.
\<close>

theorem partial_handles_counterexample:
  "search_system (run (initial_world []) [(env_loader_fails, Reindex)]) = Some placeholder_rag
   \<and> vector_store (run (initial_world []) [(env_loader_fails, Reindex)]) = None"
  by (simp add: initial_world_def reindex_documents_def initialize_search_system_def env_ok_def
      env_loader_fails_def called_def)




text \<open>
  C3, as amended. The \<^verbatim>\<open>top_k\<close> that \<^verbatim>\<open>search\<close> uses is the clamp to the interval
  from 1 to 20 of the integer that \<^verbatim>\<open>int\<close> reads from the field, and \<^verbatim>\<open>int\<close> reads the
  decimal rendering of every integer of at most 4300 digits (999 gives 20, 0 gives 1). A
  missing field gives 5, and so does every field that \<^verbatim>\<open>int\<close> refuses. Every call of
  \<^verbatim>\<open>search_and_summarize\<close> that the request makes carries this value, and the call is
  made whenever the search object is there, already or after a successful initialisation,
  and has the method.
\<close>

theorem top_k_clamped:
  "(py_int s = Some n \<longrightarrow> effective_top_k (Some s) = spec_clamp n)
   \<and> (\<bar>i\<bar> < 10 ^ int_max_str_digits \<longrightarrow> effective_top_k (Some (str_int i)) = spec_clamp i)
   \<and> (py_int t = None \<longrightarrow> effective_top_k (Some t) = 5)
   \<and> effective_top_k None = 5
   \<and> effective_top_k (Some ''999'') = 20
   \<and> effective_top_k (Some ''0'') = 1
   \<and> (Call_search_and_summarize q' k \<in> set (new_calls w (snd (search e w query_field field))) \<longrightarrow>
        q' = py_strip (case query_field of None \<Rightarrow> [] | Some x \<Rightarrow> x) \<and> k = effective_top_k field)
   \<and> (search_system w = Some r \<and> has_search_and_summarize r \<and> py_strip q \<noteq> [] \<longrightarrow>
        calls (snd (search e w (Some q) field))
          = calls w @ [Call_search_and_summarize (py_strip q) (effective_top_k field)])
   \<and> (search_system w = None \<and> fst (initialize_search_system e w)
        \<and> search_system (snd (initialize_search_system e w)) = Some r
        \<and> has_search_and_summarize r \<and> py_strip q \<noteq> [] \<longrightarrow>
        calls (snd (search e w (Some q) field))
          = calls (snd (initialize_search_system e w))
            @ [Call_search_and_summarize (py_strip q) (effective_top_k field)])"
proof -
  let ?query = "py_strip (case query_field of None \<Rightarrow> [] | Some x \<Rightarrow> x)"
  let ?c = "Call_search_and_summarize ?query (effective_top_k field)"
  let ?v = "snd (initialize_search_system e w)"
  have a: "py_int s = Some n \<longrightarrow> effective_top_k (Some s) = spec_clamp n"
    by (simp add: effective_top_k_def clamp_is_spec_clamp)
  have b: "\<bar>i\<bar> < 10 ^ int_max_str_digits \<longrightarrow> effective_top_k (Some (str_int i)) = spec_clamp i"
  proof
    assume "\<bar>i\<bar> < 10 ^ int_max_str_digits"
    from py_int_str_int [OF this] show "effective_top_k (Some (str_int i)) = spec_clamp i"
      by (simp add: effective_top_k_def clamp_is_spec_clamp)
  qed
  have c: "py_int t = None \<longrightarrow> effective_top_k (Some t) = 5"
    by (simp add: effective_top_k_def)
  have d: "effective_top_k None = 5"
    by code_simp
  have f: "effective_top_k (Some ''999'') = 20"
    by code_simp
  have g: "effective_top_k (Some ''0'') = 1"
    by code_simp
  have no_search: "Call_search_and_summarize q' k \<notin> set (new_calls w ?v)"
    by (cases "new_RAGSearch e"; cases "load_all_documents e (folder w)";
        cases "new_FaissVectorStore e ''faiss_store''")
      (auto simp: initialize_new_calls)
  define rest where "rest = new_calls w ?v"
  have cv: "calls ?v = calls w @ rest"
    unfolding rest_def by (rule calls_grow_initialize)
  have nc: "new_calls w w = []" "new_calls w ?v = rest" "new_calls w (called ?c w) = [?c]"
    "new_calls w (called ?c ?v) = rest @ [?c]"
    by (simp_all add: new_calls_def called_def cv)
  have "snd (search e w query_field field) \<in> {w, ?v, called ?c w, called ?c ?v}"
    by (rule search_world)
  then have "new_calls w (snd (search e w query_field field)) \<in> {[], rest, [?c], rest @ [?c]}"
    using nc by (elim insertE) simp_all
  then have "set (new_calls w (snd (search e w query_field field))) \<subseteq> set rest \<union> {?c}"
    by auto
  then have "set (new_calls w (snd (search e w query_field field)))
      \<subseteq> set (new_calls w ?v) \<union> {?c}"
    by (simp add: nc(2))
  with no_search have h: "Call_search_and_summarize q' k \<in> set (new_calls w (snd (search e w query_field field)))
      \<longrightarrow> q' = ?query \<and> k = effective_top_k field"
    by auto
  have i: "search_system w = Some r \<and> has_search_and_summarize r \<and> py_strip q \<noteq> [] \<longrightarrow>
        calls (snd (search e w (Some q) field))
          = calls w @ [Call_search_and_summarize (py_strip q) (effective_top_k field)]"
    by (simp add: search_def called_def Let_def split: sum.split)
  have j: "search_system w = None \<and> fst (initialize_search_system e w)
        \<and> search_system ?v = Some r \<and> has_search_and_summarize r \<and> py_strip q \<noteq> [] \<longrightarrow>
        calls (snd (search e w (Some q) field))
          = calls ?v @ [Call_search_and_summarize (py_strip q) (effective_top_k field)]"
    by (simp add: search_def called_def Let_def case_prod_beta split: sum.split)
  from a b c d f g h i j show ?thesis
    by blast
qed

text \<open>
  The fields \<^verbatim>\<open>25\<close>, \<^verbatim>\<open>many\<close> and \<^verbatim>\<open>-3\<close>, in a first search that initialises the
  system and in a second one.
\<close>

theorem top_k_clamped_witness:
  "py_int ''25'' = Some 25 \<and> effective_top_k (Some ''25'') = 20
   \<and> effective_top_k (Some (str_int 25)) = 20
   \<and> py_int ''many'' = None \<and> effective_top_k (Some ''many'') = 5
   \<and> calls (snd (search env_ok (initial_world []) (Some ''cats'') (Some ''-3'')))
      = [Call_RAGSearch, Call_load_all_documents [], Call_FaissVectorStore ''faiss_store'', Call_load,
         Call_search_and_summarize ''cats'' 1]
   \<and> calls (snd (search env_ok (run (initial_world []) [(env_ok, Reindex)]) (Some ''cats'') (Some ''-3'')))
      = [Call_RAGSearch, Call_load_all_documents [], Call_FaissVectorStore ''faiss_store'', Call_load,
         Call_search_and_summarize ''cats'' 1]"
proof -
  let ?w = "run (initial_world []) [(env_ok, Reindex)]"
  have p: "py_int ''25'' = Some 25"
    by code_simp
  have m: "py_int ''many'' = None"
    by code_simp
  have small: "\<bar>25 :: int\<bar> < 10 ^ int_max_str_digits"
  proof -
    have "(25 :: int) < 10 ^ 2"
      by simp
    also have "(10 :: int) ^ 2 \<le> 10 ^ int_max_str_digits"
      by (rule power_increasing) (simp_all add: int_max_str_digits_def)
    finally show ?thesis
      by simp
  qed
  have q: "py_strip ''cats'' = ''cats''"
    by code_simp
  have k: "effective_top_k (Some ''-3'') = 1"
    by code_simp
  have r: "has_search_and_summarize placeholder_rag"
    by (simp add: placeholder_rag_def)
  have i0: "initialize_search_system env_ok (initial_world []) = (True, ?w)"
    by (simp add: initial_world_def reindex_documents_def initialize_search_system_def env_ok_def
        called_def attach_store_def placeholder_rag_def)
  have w: "search_system ?w = Some placeholder_rag"
    "calls ?w = [Call_RAGSearch, Call_load_all_documents [], Call_FaissVectorStore ''faiss_store'',
                 Call_load]"
    by (simp_all only: run_reindex_ok) simp_all
  have n: "search_system (initial_world []) = None"
    by (simp add: initial_world_def)
  have first: "calls (snd (search env_ok (initial_world []) (Some ''cats'') (Some ''-3'')))
      = calls ?w @ [Call_search_and_summarize ''cats'' 1]"
    using top_k_clamped [of "''25''" 25 25 "''many''" _ _ "initial_world []" env_ok _ "Some ''-3''"
        placeholder_rag "''cats''"] i0 w(1) n q k r
    by simp
  have second: "calls (snd (search env_ok ?w (Some ''cats'') (Some ''-3'')))
      = calls ?w @ [Call_search_and_summarize ''cats'' 1]"
    using top_k_clamped [of "''25''" 25 25 "''many''" _ _ ?w env_ok _ "Some ''-3''"
        placeholder_rag "''cats''"] w(1) q k r
    by simp
  have vals: "effective_top_k (Some ''25'') = 20" "effective_top_k (Some (str_int 25)) = 20"
    "effective_top_k (Some ''many'') = 5"
    using top_k_clamped [of "''25''" 25 25 "''many''"] p m small
    by (simp_all add: spec_clamp_def)
  from p m vals first second w(2) show ?thesis
    by simp
qed

text \<open>
  A field of 4301 nines is a decimal literal of an integer above 20; \<^verbatim>\<open>int\<close> refuses it
  for its length and \<^verbatim>\<open>top_k\<close> is 5. A field with the separator 28 before the digit 7
  is refused as well.
\<close>

theorem top_k_digit_limit_counterexample:
  "parse_digits (replicate 4301 (CHR ''9'')) \<noteq> None
   \<and> 20 < the (parse_digits (replicate 4301 (CHR ''9'')))
   \<and> effective_top_k (Some (replicate 4301 (CHR ''9''))) = 5
   \<and> effective_top_k (Some [CHR 0x1C, CHR ''7'']) = 5"
proof -
  have n: "(4301 :: nat) = Suc (Suc 4299)" "(4301 :: nat) = Suc 4300"
    by simp_all
  have r2: "replicate 4301 (CHR ''9'') = CHR ''9'' # CHR ''9'' # replicate 4299 (CHR ''9'')"
    by (subst n(1)) (simp only: replicate.simps)
  have r1: "replicate 4301 (CHR ''9'') = CHR ''9'' # replicate 4300 (CHR ''9'')"
    by (subst n(2)) (simp only: replicate.simps)
  obtain v where v: "parse_digits (replicate 4301 (CHR ''9'')) = Some v" "99 \<le> v"
    using parse_nines [of 4299] r2 by auto
  have "py_int (replicate 4301 (CHR ''9'')) = None"
    unfolding r1 by (rule py_int_too_many_nines) (simp add: int_max_str_digits_def)
  then have e: "effective_top_k (Some (replicate 4301 (CHR ''9''))) = 5"
    by (simp add: effective_top_k_def)
  have s: "effective_top_k (Some [CHR 0x1C, CHR ''7'']) = 5"
    by code_simp
  from v e s show ?thesis
    by simp
qed

text \<open>
  C4 asks that every successful delete and every upload with a processed file rebuilds the
  index from the documents on disk. With a persisted index that \<^verbatim>\<open>load()\<close> reads, as with
  the placeholder store of lines 27 to 33, the delete of \<^verbatim>\<open>a.pdf\<close> succeeds and is followed
  by an initialisation that lists the folder and loads the persisted index: no call of
  \<^verbatim>\<open>build_from_documents\<close> is made although \<^verbatim>\<open>b.pdf\<close> is left on disk. The upload of
  \<^verbatim>\<open>c.pdf\<close> reaches the index through \<^verbatim>\<open>add_documents\<close> alone.
\<close>

theorem persisted_index_no_rebuild:
  "delete_document env_persisted world_indexed ''a.pdf''
    = ((200, Json_success ''Document deleted successfully''),
       \<lparr>search_system = Some placeholder_rag, vector_store = Some (placeholder_store ''faiss_store''),
        folder = [''b.pdf''],
        calls = [Call_RAGSearch, Call_load_all_documents [''b.pdf''],
                 Call_FaissVectorStore ''faiss_store'', Call_load]\<rparr>)
   \<and> fst (upload_files env_persisted world_indexed (Some [pdf_upload ''c.pdf'' ''hello'']))
    = (200, Json_upload [Uploaded ''c.pdf'' ''c_20240101_120000.pdf''
                 ''Document processed and added to vector store successfully''] []
              ''Successfully uploaded 1 files. Failed: 0'')
   \<and> calls (snd (upload_files env_persisted world_indexed (Some [pdf_upload ''c.pdf'' ''hello''])))
    = [Call_add_documents
         [\<lparr>content = ''hello'' @ [CHR 0x0A], doc_filename = ''c_20240101_120000.pdf'',
           doc_path = ''data/sample_data/c_20240101_120000.pdf'',
           uploaded_at = ''2024-01-01T12:00:00'', doc_source = ''upload''\<rparr>],
       Call_RAGSearch,
       Call_load_all_documents [''a.pdf'', ''b.pdf'', ''c_20240101_120000.pdf''],
       Call_FaissVectorStore ''faiss_store'', Call_load]"
  by code_simp

text \<open>
  C5 asks that one processed upload raises the document count of the status report by
  one. An upload named \<^verbatim>\<open>REPORT.PDF\<close> passes \<^verbatim>\<open>allowed_file\<close>, which lowers the
  extension, is processed and saved as \<^verbatim>\<open>REPORT_20240101_120000.PDF\<close>; the count of
  line 378 looks for the suffix \<^verbatim>\<open>.pdf\<close> as written and stays at 2.
\<close>

theorem uppercase_pdf_upload_not_counted:
  "fst (upload_files env_ok world_indexed (Some [pdf_upload ''REPORT.PDF'' ''hello'']))
     = (200, Json_upload [Uploaded ''REPORT.PDF'' ''REPORT_20240101_120000.PDF''
                 ''Document processed and added to vector store successfully''] []
              ''Successfully uploaded 1 files. Failed: 0'')
   \<and> folder (snd (upload_files env_ok world_indexed (Some [pdf_upload ''REPORT.PDF'' ''hello''])))
     = [''a.pdf'', ''b.pdf'', ''REPORT_20240101_120000.PDF'']
   \<and> search_system_status env_ok world_indexed
     = (200, Json_status ''initialized'' 2 True ''data/sample_data'' (Some ''RAGSearch''))
   \<and> search_system_status env_ok
        (snd (upload_files env_ok world_indexed (Some [pdf_upload ''REPORT.PDF'' ''hello''])))
     = (200, Json_status ''initialized'' 2 True ''data/sample_data'' (Some ''RAGSearch''))"
  by code_simp

text \<open>
  C6 asks for 404 when the sanitised name is no file of the upload folder. The name
  \<^verbatim>\<open>_\<close> is sanitised to the empty string, the path joined from it is the upload folder
  itself, which exists, \<^verbatim>\<open>os.remove\<close> raises and the answer is 500. The state is
  unchanged.
\<close>

theorem delete_empty_name_is_500:
  "werkzeug_secure_filename ''_'' = []
   \<and> ''_'' \<notin> set (folder world_indexed)
   \<and> delete_document env_ok world_indexed ''_''
     = ((500, Json_error (''[Errno 21] Is a directory: '' @ quoted ''data/sample_data/'')), world_indexed)"
  by code_simp

text \<open>
  C7, as amended. Whatever an upload request does, a file that appears in the folder has
  the saved name of a submitted file with an allowed extension; when no submitted file has
  one the state is unchanged; and when the request answers with its report (status 200),
  every submitted file without an allowed extension is in the list of failures with the
  message of line 273.
\<close>

theorem rejected_extension_not_written:
  "(n \<in> set (folder (snd (upload_files e w (Some fs)))) \<longrightarrow>
      n \<in> set (folder w) \<or> (\<exists>f \<in> set fs. allowed_file (filename f) \<and> n = unique_filename e f))
   \<and> ((\<forall>f \<in> set gs. \<not> allowed_file (filename f)) \<longrightarrow> snd (upload_files e w (Some gs)) = w)
   \<and> (upload_files e w (Some hs) = ((200, Json_upload up fl m), w') \<and> f \<in> set hs
        \<and> \<not> allowed_file (filename f) \<longrightarrow>
        Failed (filename f) ''Invalid file type. Only PDF files are allowed.'' \<in> set fl)"
proof -
  have a: "n \<in> set (folder (snd (upload_files e w (Some fs)))) \<longrightarrow>
      n \<in> set (folder w) \<or> (\<exists>f \<in> set fs. allowed_file (filename f) \<and> n = unique_filename e f)"
  proof
    assume n: "n \<in> set (folder (snd (upload_files e w (Some fs))))"
    let ?v = "fst (upload_loop e fs w [] [])"
    have "folder (snd (upload_files e w (Some fs))) \<in> {folder w, folder ?v}"
      using upload_world [of e w "Some fs"] initialize_folder [of e ?v] by auto
    with n have "n \<in> set (folder w) \<or> n \<in> set (folder ?v)"
      by auto
    with upload_loop_folder [of n e fs w "[]" "[]"] show
      "n \<in> set (folder w) \<or> (\<exists>f \<in> set fs. allowed_file (filename f) \<and> n = unique_filename e f)"
      by (auto simp: accepted_iff)
  qed
  have b: "(\<forall>f \<in> set gs. \<not> allowed_file (filename f)) \<longrightarrow> snd (upload_files e w (Some gs)) = w"
  proof
    assume "\<forall>f \<in> set gs. \<not> allowed_file (filename f)"
    then have "\<forall>f \<in> set gs. \<not> accepted f"
      by (simp add: accepted_iff)
    from upload_loop_all_rejected [OF this, of e w "[]" "[]"]
    obtain fl' where "upload_loop e gs w [] [] = (w, Inr ([], fl'))"
      by (metis prod.collapse)
    then show "snd (upload_files e w (Some gs)) = w"
      by (simp add: upload_files_def)
  qed
  have c: "upload_files e w (Some hs) = ((200, Json_upload up fl m), w') \<and> f \<in> set hs
        \<and> \<not> allowed_file (filename f) \<longrightarrow>
        Failed (filename f) ''Invalid file type. Only PDF files are allowed.'' \<in> set fl"
  proof
    assume h: "upload_files e w (Some hs) = ((200, Json_upload up fl m), w') \<and> f \<in> set hs
        \<and> \<not> allowed_file (filename f)"
    then obtain w1 where "upload_loop e hs w [] [] = (w1, Inr (up, fl))"
      using upload_files_report by blast
    from upload_loop_failed_list [OF this] h show
      "Failed (filename f) ''Invalid file type. Only PDF files are allowed.'' \<in> set fl"
      by (simp add: accepted_iff)
  qed
  from a b c show ?thesis
    by blast
qed

text \<open>A request with \<^verbatim>\<open>notes.txt\<close> and \<^verbatim>\<open>c.pdf\<close>.\<close>

theorem rejected_extension_not_written_witness:
  "''c_20240101_120000.pdf'' = unique_filename env_ok (pdf_upload ''c.pdf'' ''hello'')
   \<and> allowed_file ''c.pdf'' \<and> \<not> allowed_file ''notes.txt''
   \<and> snd (upload_files env_ok world_indexed (Some [pdf_upload ''notes.txt'' ''x''])) = world_indexed
   \<and> Failed ''notes.txt'' ''Invalid file type. Only PDF files are allowed.''
       \<in> set [Failed ''notes.txt'' ''Invalid file type. Only PDF files are allowed.'']"
proof -
  let ?fs = "[pdf_upload ''notes.txt'' ''x'', pdf_upload ''c.pdf'' ''hello'']"
  let ?up = "[Uploaded ''c.pdf'' ''c_20240101_120000.pdf''
                 ''Document processed and added to vector store successfully'']"
  let ?fl = "[Failed ''notes.txt'' ''Invalid file type. Only PDF files are allowed.'']"
  let ?m = "''Successfully uploaded 1 files. Failed: 1''"
  have n: "''c_20240101_120000.pdf'' \<in> set (folder (snd (upload_files env_ok world_indexed (Some ?fs))))"
    by code_simp
  have o: "''c_20240101_120000.pdf'' \<notin> set (folder world_indexed)"
    by code_simp
  have u: "unique_filename env_ok (pdf_upload ''notes.txt'' ''x'') \<noteq> ''c_20240101_120000.pdf''"
    "unique_filename env_ok (pdf_upload ''c.pdf'' ''hello'') = ''c_20240101_120000.pdf''"
    by code_simp+
  have a: "\<not> allowed_file ''notes.txt''" "allowed_file ''c.pdf''"
    by code_simp+
  have f: "filename (pdf_upload ''notes.txt'' ''x'') = ''notes.txt''"
    by (simp add: pdf_upload_def)
  have r: "fst (upload_files env_ok world_indexed (Some ?fs)) = (200, Json_upload ?up ?fl ?m)"
    by code_simp
  then have r': "upload_files env_ok world_indexed (Some ?fs)
      = ((200, Json_upload ?up ?fl ?m), snd (upload_files env_ok world_indexed (Some ?fs)))"
    by (metis prod.collapse)
  show ?thesis
    using rejected_extension_not_written [of "''c_20240101_120000.pdf''" env_ok world_indexed ?fs
        "[pdf_upload ''notes.txt'' ''x'']" ?fs ?up ?fl ?m
        "snd (upload_files env_ok world_indexed (Some ?fs))" "pdf_upload ''notes.txt'' ''x''"]
      n o u a f r'
    by simp
qed

text \<open>
  When the first part has an empty file name the request is answered with 400 by line
  233, and \<^verbatim>\<open>notes.txt\<close> is in no list of failures.
\<close>

theorem rejected_extension_counterexample:
  "\<not> allowed_file ''notes.txt''
   \<and> upload_files env_ok world_indexed (Some [pdf_upload [] ''x'', pdf_upload ''notes.txt'' ''x''])
     = ((400, Json_error ''No files selected''), world_indexed)"
  by code_simp

text \<open>
  C8. A \<^verbatim>\<open>search\<close> request whose \<^verbatim>\<open>query\<close> field is missing, empty or all whitespace
  is answered with the prompt for a valid query, and the state is left as it was: no
  handle is assigned and no collaborator is called.
\<close>

theorem empty_query_prompt:
  "py_strip (case query_field of None \<Rightarrow> [] | Some q \<Rightarrow> q) = [] \<Longrightarrow>
   search e w query_field top_k_field = ((200, Results_page [] ''Please enter a valid query.''), w)"
  by (simp add: search_def)

text \<open>A missing and an empty \<^verbatim>\<open>query\<close> field.\<close>

theorem empty_query_prompt_witness:
  "search env_ok (initial_world [''a.pdf'']) None (Some ''3'')
     = ((200, Results_page [] ''Please enter a valid query.''), initial_world [''a.pdf''])
   \<and> search env_ok (initial_world [''a.pdf'']) (Some []) None
     = ((200, Results_page [] ''Please enter a valid query.''), initial_world [''a.pdf''])
   \<and> calls (snd (search env_ok (initial_world [''a.pdf'']) (Some []) None)) = []"
proof -
  have 1: "py_strip (case None of None \<Rightarrow> [] | Some q \<Rightarrow> q) = []"
    by (simp add: py_strip_def)
  have 2: "py_strip (case Some [] of None \<Rightarrow> [] | Some q \<Rightarrow> q) = []"
    by (simp add: py_strip_def)
  show ?thesis
    using empty_query_prompt [OF 1, of env_ok "initial_world [''a.pdf'']" "Some ''3''"]
      empty_query_prompt [OF 2, of env_ok "initial_world [''a.pdf'']" None]
    by (simp add: initial_world_def)
qed

text \<open>
  C9 asks that no handler lets an exception out. When the upload folder cannot be listed,
  \<^verbatim>\<open>health\<close>, which has no \<^verbatim>\<open>try\<close>, lets the exception of \<^verbatim>\<open>os.listdir\<close> out;
  \<^verbatim>\<open>search_system_status\<close> makes the same call inside \<^verbatim>\<open>try\<close> and answers 500.
\<close>

theorem health_propagates:
  "health env_no_listing world_indexed = Inl (Exception ''[Errno 2] No such file or directory'')
   \<and> search_system_status env_no_listing world_indexed
     = (500, Json_status_error ''[Errno 2] No such file or directory'')"
  by code_simp

text \<open>
  C10, as amended. When an upload request answers with its report (status 200) and the
  saved names of its accepted files differ from one another, the saved name of an accepted
  file is in the folder afterwards exactly when the file is in the list of successes.
\<close>

theorem upload_atomic_per_file:
  assumes "upload_files e w (Some fs) = ((200, Json_upload up fl m), w')"
    and "distinct (map (unique_filename e) (filter (\<lambda>f. allowed_file (filename f)) fs))"
    and "f \<in> set fs" and "allowed_file (filename f)"
  shows "unique_filename e f \<in> set (folder w')
         \<longleftrightarrow> (\<exists>msg. Uploaded (filename f) (unique_filename e f) msg \<in> set up)"
proof -
  obtain w1 where l: "upload_loop e fs w [] [] = (w1, Inr (up, fl))" and fw: "folder w' = folder w1"
    using upload_files_report [OF assms(1)] by blast
  have acc: "accepted = (\<lambda>f. allowed_file (filename f))"
    by (rule ext) (simp add: accepted_iff)
  have d: "distinct (map (unique_filename e) (filter accepted fs))"
    using assms(2) by (simp add: acc)
  from upload_loop_atomic [OF l d] have
    2: "\<forall>u \<in> set up. \<exists>g \<in> set fs. accepted g \<and> original u = filename g
          \<and> saved_as u = unique_filename e g"
    and 3: "\<forall>g \<in> set fs. accepted g \<longrightarrow>
          (unique_filename e g \<in> set (folder w1) \<longleftrightarrow> unique_filename e g \<in> saved_as ` set up)"
    by auto
  have inj: "inj_on (unique_filename e) (set (filter accepted fs))"
    using d by (simp add: distinct_map)
  have fa: "f \<in> set (filter accepted fs)"
    using assms(3,4) by (simp add: acc)
  show ?thesis
  proof
    assume "unique_filename e f \<in> set (folder w')"
    with 3 fw fa obtain u where u: "u \<in> set up" "saved_as u = unique_filename e f"
      by auto
    with 2 obtain g where g: "g \<in> set fs" "accepted g" "original u = filename g"
      "saved_as u = unique_filename e g"
      by blast
    with u inj fa have "g = f"
      by (auto simp: inj_on_def)
    with g u have "u = Uploaded (filename f) (unique_filename e f) (message u)"
      by (cases u) simp
    with u(1) show "\<exists>msg. Uploaded (filename f) (unique_filename e f) msg \<in> set up"
      by metis
  next
    assume "\<exists>msg. Uploaded (filename f) (unique_filename e f) msg \<in> set up"
    then have "unique_filename e f \<in> saved_as ` set up"
      by force
    with 3 fw fa show "unique_filename e f \<in> set (folder w')"
      by auto
  qed
qed

text \<open>A request with a readable \<^verbatim>\<open>c.pdf\<close> and a \<^verbatim>\<open>d.pdf\<close> without text.\<close>

theorem upload_atomic_per_file_witness:
  "''c_20240101_120000.pdf''
     \<in> set (folder (snd (upload_files env_ok world_indexed
                            (Some [pdf_upload ''c.pdf'' ''hello'', pdf_upload ''d.pdf'' []]))))
   \<and> ''d_20240101_120000.pdf''
     \<notin> set (folder (snd (upload_files env_ok world_indexed
                            (Some [pdf_upload ''c.pdf'' ''hello'', pdf_upload ''d.pdf'' []]))))"
proof -
  let ?fs = "[pdf_upload ''c.pdf'' ''hello'', pdf_upload ''d.pdf'' []]"
  let ?up = "[Uploaded ''c.pdf'' ''c_20240101_120000.pdf''
                 ''Document processed and added to vector store successfully'']"
  let ?fl = "[Failed ''d.pdf'' ''No text could be extracted from PDF'']"
  let ?m = "''Successfully uploaded 1 files. Failed: 1''"
  have r: "fst (upload_files env_ok world_indexed (Some ?fs)) = (200, Json_upload ?up ?fl ?m)"
    by code_simp
  then have r': "upload_files env_ok world_indexed (Some ?fs)
      = ((200, Json_upload ?up ?fl ?m), snd (upload_files env_ok world_indexed (Some ?fs)))"
    by (metis prod.collapse)
  have d: "distinct (map (unique_filename env_ok) (filter (\<lambda>f. allowed_file (filename f)) ?fs))"
    by code_simp
  have a: "allowed_file (filename (pdf_upload ''c.pdf'' ''hello''))"
    "allowed_file (filename (pdf_upload ''d.pdf'' []))"
    by code_simp+
  have u: "unique_filename env_ok (pdf_upload ''c.pdf'' ''hello'') = ''c_20240101_120000.pdf''"
    "unique_filename env_ok (pdf_upload ''d.pdf'' []) = ''d_20240101_120000.pdf''"
    by code_simp+
  have f: "filename (pdf_upload ''c.pdf'' ''hello'') = ''c.pdf''"
    "filename (pdf_upload ''d.pdf'' []) = ''d.pdf''"
    by (simp_all add: pdf_upload_def)
  show ?thesis
    using upload_atomic_per_file [OF r' d _ a(1)] upload_atomic_per_file [OF r' d _ a(2)] u f
    by simp
qed

text \<open>
  When \<^verbatim>\<open>file.save\<close> raises for the second file, the request answers 500 with no list
  of successes, and the first file, saved and indexed, stays in the folder.
\<close>

theorem upload_atomic_counterexample:
  "fst (upload_files env_ok world_indexed
          (Some [pdf_upload ''c.pdf'' ''hello'',
                 (pdf_upload ''d.pdf'' ''hello'')\<lparr>save_error := Some (Exception ''disk full'')\<rparr>]))
     = (500, Json_error ''disk full'')
   \<and> folder (snd (upload_files env_ok world_indexed
          (Some [pdf_upload ''c.pdf'' ''hello'',
                 (pdf_upload ''d.pdf'' ''hello'')\<lparr>save_error := Some (Exception ''disk full'')\<rparr>])))
     = [''a.pdf'', ''b.pdf'', ''c_20240101_120000.pdf'']"
  by code_simp

end
